theory Spec2Isabelle
  imports Complex_Main
begin

section \<open>Python values and exceptions\<close>

text \<open>
  The program is \<^verbatim>\<open>multi-round-qa-apps.py\<close>. Python's unbounded \<^verbatim>\<open>int\<close> is
  \<^typ>\<open>int\<close>; a \<^verbatim>\<open>float\<close> (time stamps, gaps, rates) is idealised as a
  \<^typ>\<open>real\<close>, so rounding is outside the model. Every exception the modelled code
  can raise is a value of \<open>error\<close>, and a function that can raise returns
  \<open>error + 'a\<close> with \<open>Inl\<close> for the exception.
\<close>

datatype error =
    AssertionError
  | ZeroDivisionError
  | KeyError
  | IndexError
  | TypeError
  | UnboundLocalError
  | OSError
  | ValueError
  | APIError

text \<open>Sequencing of calls that may raise: the first exception wins.\<close>

definition bind_err :: "error + 'a \<Rightarrow> ('a \<Rightarrow> error + 'b) \<Rightarrow> error + 'b" where
  "bind_err m f = (case m of Inl e \<Rightarrow> Inl e | Inr x \<Rightarrow> f x)"

text \<open>\<^verbatim>\<open>xs[i]\<close>: a negative index counts from the end, out of range raises.\<close>

definition py_index :: "'a list \<Rightarrow> int \<Rightarrow> error + 'a" where
  "py_index xs i =
     (if 0 \<le> i then
        (if nat i < length xs then Inr (xs ! nat i) else Inl IndexError)
      else
        (if nat (- i) \<le> length xs then Inr (xs ! (length xs - nat (- i)))
         else Inl IndexError))"

text \<open>\<^verbatim>\<open>a / b\<close> on numbers: true division, raising on a zero divisor.\<close>

definition py_truediv :: "real \<Rightarrow> real \<Rightarrow> error + real" where
  "py_truediv a b = (if b = 0 then Inl ZeroDivisionError else Inr (a / b))"

text \<open>\<^verbatim>\<open>int(x)\<close> of a float truncates toward zero.\<close>

definition py_int :: "real \<Rightarrow> int" where
  "py_int x = (if 0 \<le> x then \<lfloor>x\<rfloor> else \<lceil>x\<rceil>)"

text \<open>\<^verbatim>\<open>sep.join(xs)\<close>.\<close>

fun join :: "string \<Rightarrow> string list \<Rightarrow> string" where
  "join sep [] = []"
| "join sep [x] = x"
| "join sep (x # y # ys) = x @ sep @ join sep (y # ys)"

text \<open>\<^verbatim>\<open>str(n)\<close> of an integer, in decimal.\<close>

fun str_nat :: "nat \<Rightarrow> string" where
  "str_nat n =
     (if n < 10 then [''0123456789'' ! n]
      else str_nat (n div 10) @ [''0123456789'' ! (n mod 10)])"

declare str_nat.simps [simp del]

definition str_int :: "int \<Rightarrow> string" where
  "str_int i = (if i < 0 then CHR ''-'' # str_nat (nat (- i)) else str_nat (nat i))"

section \<open>ChatHistory\<close>

text \<open>
  \<^verbatim>\<open>self.history\<close> is a list of dictionaries with the keys \<^verbatim>\<open>role\<close> and
  \<^verbatim>\<open>content\<close>; an \<^verbatim>\<open>assert\<close> that fails is the exception AssertionError.
\<close>

record turn =
  role :: string
  content :: string

type_synonym ChatHistory = "turn list"

definition ChatHistory_init :: ChatHistory where
  "ChatHistory_init = []"

definition on_user_query :: "string \<Rightarrow> ChatHistory \<Rightarrow> error + ChatHistory" where
  "on_user_query query h =
     (if length h = 0 then Inr (h @ [\<lparr>role = ''user'', content = query\<rparr>])
      else if role (last h) = ''assistant''
        then Inr (h @ [\<lparr>role = ''user'', content = query\<rparr>])
      else Inl AssertionError)"

definition on_system_response :: "string \<Rightarrow> ChatHistory \<Rightarrow> error + ChatHistory" where
  "on_system_response response h =
     (if \<not> length h > 0 then Inl AssertionError
      else if \<not> role (last h) = ''user'' then Inl AssertionError
      else Inr (h @ [\<lparr>role = ''assistant'', content = response\<rparr>]))"

definition get_messages_for_openai :: "ChatHistory \<Rightarrow> turn list" where
  "get_messages_for_openai h = h"

text \<open>A client of the class: a sequence of calls of its two mutators, stopping at the
  first one that raises.\<close>

datatype chat_op = UserQuery string | SystemResponse string

fun chat_apply :: "chat_op \<Rightarrow> ChatHistory \<Rightarrow> error + ChatHistory" where
  "chat_apply (UserQuery q) h = on_user_query q h"
| "chat_apply (SystemResponse r) h = on_system_response r h"

fun chat_run :: "chat_op list \<Rightarrow> ChatHistory \<Rightarrow> error + ChatHistory" where
  "chat_run [] h = Inr h"
| "chat_run (x # xs) h = bind_err (chat_apply x h) (chat_run xs)"

text \<open>The alternation invariant: no two neighbouring turns carry the same role, and
  the first turn, if any, is not an assistant turn.\<close>

fun alternating :: "turn list \<Rightarrow> bool" where
  "alternating (a # b # r) = (role a \<noteq> role b \<and> alternating (b # r))"
| "alternating _ = True"

definition starts_with_assistant :: "turn list \<Rightarrow> bool" where
  "starts_with_assistant h = (case h of [] \<Rightarrow> False | a # _ \<Rightarrow> role a = ''assistant'')"

text \<open>What the two mutators actually maintain: user and assistant turns in strict
  rotation, the first one a user turn.\<close>

fun rotation :: "bool \<Rightarrow> turn list \<Rightarrow> bool" where
  "rotation u [] = True"
| "rotation u (a # r) = (role a = (if u then ''user'' else ''assistant'') \<and> rotation (\<not> u) r)"

section \<open>Result rows\<close>

text \<open>One row of the frame that \<^verbatim>\<open>summary\<close> builds and \<^verbatim>\<open>ProcessSummary\<close>
  reads: a \<^verbatim>\<open>DataFrame\<close> is the list of its rows.\<close>

record Row =
  prompt_tokens :: int
  generation_tokens :: int
  ttft :: real
  generation_time :: real
  user_id :: int
  question_id :: int
  launch_time :: real
  finish_time :: real

type_synonym DataFrame = "Row list"

section \<open>Apps and the AppsManager\<close>

record App =
  systemPrompt :: string
  tools :: string
  ragDocs :: "string list"

text \<open>
  One element of the parsed apps file: a dictionary in which each of the three keys may
  be missing (\<open>None\<close>), which makes the subscription raise KeyError. What
  \<^verbatim>\<open>open\<close> and \<^verbatim>\<open>json.load\<close> give for a path is the program's input: an exception
  (no such file, not JSON) or the list of elements.
\<close>

record app_data =
  d_systemPrompt :: "string option"
  d_tools :: "string option"
  d_ragDocs :: "string list option"

type_synonym apps_file = "error + app_data list"

record WorkloadConfig =
  num_users :: int
  system_prompt_len :: int
  user_info_len :: int
  answer_len :: int
  num_rounds :: int
  qps :: real
  model :: string
  enable_user_id :: bool
  apps_file_path :: string
  users_per_app :: int

record AppsManager =
  apps :: "App list"
  user_app_map :: "int \<rightharpoonup> App"
  users_per_app :: int

definition App_of :: "app_data \<Rightarrow> error + App" where
  "App_of d =
     (case d_systemPrompt d of None \<Rightarrow> Inl KeyError | Some sp \<Rightarrow>
      (case d_tools d of None \<Rightarrow> Inl KeyError | Some ts \<Rightarrow>
       (case d_ragDocs d of None \<Rightarrow> Inl KeyError | Some rd \<Rightarrow>
          Inr \<lparr>systemPrompt = sp, tools = ts, ragDocs = rd\<rparr>)))"

text \<open>The loop of \<^verbatim>\<open>_load_apps\<close> over the elements, appending to \<^verbatim>\<open>self.apps\<close>.\<close>

fun load_apps_loop :: "app_data list \<Rightarrow> App list \<Rightarrow> error + App list" where
  "load_apps_loop [] acc = Inr acc"
| "load_apps_loop (d # ds) acc = bind_err (App_of d) (\<lambda>a. load_apps_loop ds (acc @ [a]))"

text \<open>\<^verbatim>\<open>_load_apps\<close>: any exception is logged and raised again.\<close>

definition load_apps :: "apps_file \<Rightarrow> AppsManager \<Rightarrow> error + AppsManager" where
  "load_apps file m =
     (case file of
        Inl e \<Rightarrow> Inl e
      | Inr apps_data \<Rightarrow>
          bind_err (load_apps_loop apps_data (apps m)) (\<lambda>as. Inr (m\<lparr>apps := as\<rparr>)))"

definition AppsManager_init :: "apps_file \<Rightarrow> int \<Rightarrow> error + AppsManager" where
  "AppsManager_init file upa =
     load_apps file \<lparr>apps = [], user_app_map = Map.empty, users_per_app = upa\<rparr>"

text \<open>\<^verbatim>\<open>//\<close> and \<^verbatim>\<open>%\<close> on integers raise on a zero divisor; otherwise they are
  \<open>div\<close> and \<open>mod\<close> on \<^typ>\<open>int\<close> (both round toward minus infinity).\<close>

definition assign_app_to_user :: "int \<Rightarrow> AppsManager \<Rightarrow> error + (App \<times> AppsManager)" where
  "assign_app_to_user uid m =
     (if AppsManager.users_per_app m = 0 then Inl ZeroDivisionError
      else if int (length (apps m)) = 0 then Inl ZeroDivisionError
      else
        let app_index = (uid div AppsManager.users_per_app m) mod int (length (apps m)) in
        bind_err (py_index (apps m) app_index)
          (\<lambda>a. Inr (a, m\<lparr>user_app_map := (user_app_map m)(uid \<mapsto> a)\<rparr>)))"

definition get_app_for_user :: "int \<Rightarrow> AppsManager \<Rightarrow> error + (App \<times> AppsManager)" where
  "get_app_for_user uid m =
     (case user_app_map m uid of
        None \<Rightarrow> assign_app_to_user uid m
      | Some a \<Rightarrow> Inr (a, m))"

section \<open>Configurations\<close>

record UserConfig =
  user_id :: int
  system_prompt_len :: int
  user_info_len :: int
  answer_len :: int
  gap_between_requests :: real
  num_rounds :: int
  enable_user_id :: bool

definition new_user_config :: "int \<Rightarrow> WorkloadConfig \<Rightarrow> error + UserConfig" where
  "new_user_config uid workload_config =
     bind_err (py_truediv (real_of_int (num_users workload_config)) (qps workload_config))
       (\<lambda>gap. Inr \<lparr>user_id = uid,
          system_prompt_len = WorkloadConfig.system_prompt_len workload_config,
          user_info_len = WorkloadConfig.user_info_len workload_config,
          answer_len = WorkloadConfig.answer_len workload_config,
          gap_between_requests = gap,
          num_rounds = WorkloadConfig.num_rounds workload_config,
          enable_user_id = WorkloadConfig.enable_user_id workload_config\<rparr>)"

section \<open>The completion endpoint and the RequestExecutor\<close>

text \<open>
  The endpoint is outside the program. A call of \<^verbatim>\<open>client.completions.create\<close> is
  described by its keyword arguments (an argument that is not passed is \<open>None\<close>), and
  the endpoint's behaviour is a parameter \<open>cl\<close> of the model: for a request it
  raises, or answers with a stream (the chunks it yields, and the exception that ends
  the iteration early, if any), or with one whole response. \<^verbatim>\<open>time.time()\<close> is a
  parameter too. What a reading returns depends on how long the calls awaited before it
  took, so a clock is asked with the replies the coroutine has received so far:
  \<open>clock rs k\<close> is what the \<open>k\<close>-th reading of the coroutine returns when it has
  been answered \<open>rs\<close>.
\<close>

record CompletionUsage =
  completion_tokens :: int
  prompt_tokens :: int

record CompletionChoice =
  choice_text :: "string option"

text \<open>A chunk of a stream or a whole response; \<open>usage = None\<close> stands for an
  attribute that is missing or \<^verbatim>\<open>None\<close>.\<close>

record Completion =
  choices :: "CompletionChoice list"
  usage :: "CompletionUsage option"

record CompletionRequest =
  model :: string
  prompt :: string
  stream :: bool
  max_tokens :: int
  temperature :: "real option"
  extra_headers :: "(string \<times> string) list option"
  stream_options :: "(string \<times> bool) list option"

datatype api_reply =
    Streamed "Completion list" "error option"
  | Whole Completion

type_synonym client = "CompletionRequest \<Rightarrow> error + api_reply"

type_synonym clock = "(error + api_reply) list \<Rightarrow> nat \<Rightarrow> real"

record Response =
  body :: string
  ttft :: real
  generation_time :: real
  prompt_tokens :: int
  generation_tokens :: int
  launch_time :: real
  finish_time :: real

text \<open>The variables the streaming loop updates, with the number of clock readings
  taken so far.\<close>

record stream_state =
  words :: string
  first_token_time :: "real option"
  readings :: nat

definition process_chunk :: "(nat \<Rightarrow> real) \<Rightarrow> Completion \<Rightarrow> stream_state \<Rightarrow> stream_state" where
  "process_chunk clock chunk st =
     (case choices chunk of
        [] \<Rightarrow> st
      | c # _ \<Rightarrow>
          (case choice_text c of
             None \<Rightarrow> st
           | Some txt \<Rightarrow>
               (let st' =
                  (if first_token_time st = None \<and> txt \<noteq> []
                   then st\<lparr>first_token_time := Some (clock (readings st)),
                           readings := Suc (readings st)\<rparr>
                   else st)
                in st'\<lparr>words := words st' @ txt\<rparr>)))"

fun process_stream :: "(nat \<Rightarrow> real) \<Rightarrow> Completion list \<Rightarrow> stream_state \<Rightarrow> stream_state" where
  "process_stream clock [] st = st"
| "process_stream clock (chunk # rest) st = process_stream clock rest (process_chunk clock chunk st)"

text \<open>The prompt: every message as \<^verbatim>\<open>role: content\<close> and a newline.\<close>

fun flatten_messages :: "turn list \<Rightarrow> string" where
  "flatten_messages [] = []"
| "flatten_messages (msg # rest) =
     (role msg @ '': '' @ content msg @ [CHR 0x0A]) @ flatten_messages rest"

text \<open>\<^verbatim>\<open>if first_token_time\<close>: \<^verbatim>\<open>None\<close> and \<^verbatim>\<open>0.0\<close> are false.\<close>

definition truthy :: "real option \<Rightarrow> bool" where
  "truthy x = (case x of None \<Rightarrow> False | Some v \<Rightarrow> v \<noteq> 0)"

definition streaming_request ::
  "string \<Rightarrow> string \<Rightarrow> int \<Rightarrow> (string \<times> string) list option \<Rightarrow> CompletionRequest" where
  "streaming_request mdl p mt hdrs =
     \<lparr>model = mdl, prompt = p, stream = True, max_tokens = mt, temperature = Some 0,
      extra_headers = hdrs, stream_options = Some [(''include_usage'', True)]\<rparr>"

definition final_request :: "string \<Rightarrow> string \<Rightarrow> int \<Rightarrow> CompletionRequest" where
  "final_request mdl p mt =
     \<lparr>model = mdl, prompt = p, stream = False, max_tokens = mt, temperature = None,
      extra_headers = None, stream_options = None\<rparr>"

text \<open>The token counts read from a response object, when it carries a usage block.\<close>

definition usage_counts :: "Completion \<Rightarrow> int \<times> int \<Rightarrow> int \<times> int" where
  "usage_counts c old =
     (case usage c of
        None \<Rightarrow> old
      | Some u \<Rightarrow> (completion_tokens u, CompletionUsage.prompt_tokens u))"

text \<open>The second, non-streaming call and what it leaves in the two counters: an
  exception of the call is caught and logged as a warning.\<close>

definition final_counts :: "client \<Rightarrow> CompletionRequest \<Rightarrow> int \<times> int \<Rightarrow> int \<times> int" where
  "final_counts cl req2 old =
     (case cl req2 of
        Inl e \<Rightarrow> old
      | Inr (Streamed _ _) \<Rightarrow> old
      | Inr (Whole final_response) \<Rightarrow> usage_counts final_response old)"

text \<open>
  \<^verbatim>\<open>_async_launch_request\<close>. The result is the list of the calls made to the endpoint,
  in order, and what the coroutine returns or raises. The outer handler logs and raises
  again. After the loop \<^verbatim>\<open>chunk\<close> is the last chunk; it is unbound when the stream
  had none. The start time is read before the first call, the time of the first token
  while the stream is consumed, and the two readings that give \<^verbatim>\<open>generation_time\<close>
  and \<^verbatim>\<open>finish_time\<close> after the second call, when there is one.
\<close>

definition async_launch_request ::
  "client \<Rightarrow> clock \<Rightarrow> string \<Rightarrow> turn list \<Rightarrow> int \<Rightarrow> string option \<Rightarrow>
     (string \<times> string) list option \<Rightarrow> CompletionRequest list \<times> (error + Response)" where
  "async_launch_request cl clock mdl messages mt tls hdrs =
     (let start_time = clock [] 0;
          p = flatten_messages messages;
          req = streaming_request mdl p mt hdrs
      in case cl req of
           Inl e \<Rightarrow> ([req], Inl e)
         | Inr (Whole _) \<Rightarrow> ([req], Inl TypeError)
         | Inr (Streamed chunks broken) \<Rightarrow>
             (let st = process_stream (clock [cl req]) chunks
                         \<lparr>words = [], first_token_time = None, readings = 1\<rparr>
              in case broken of
                   Some e \<Rightarrow> ([req], Inl e)
                 | None \<Rightarrow>
                     (if chunks = [] then ([req], Inl UnboundLocalError)
                      else
                        let counts = usage_counts (last chunks) (0, 0);
                            fallback = (fst counts = 0 \<or> snd counts = 0);
                            req2 = final_request mdl p mt;
                            counts' = (if fallback then final_counts cl req2 counts else counts);
                            answered = (if fallback then [cl req, cl req2] else [cl req]);
                            ftt = first_token_time st;
                            ttft_v = (if truthy ftt then the ftt - start_time else 0);
                            generation_time_v =
                              (if truthy ftt then clock answered (readings st) - the ftt else 0);
                            k = (if truthy ftt then Suc (readings st) else readings st)
                        in ((if fallback then [req, req2] else [req]),
                            Inr \<lparr>body = words st, ttft = ttft_v,
                                 generation_time = generation_time_v,
                                 prompt_tokens = snd counts',
                                 generation_tokens = fst counts',
                                 launch_time = start_time,
                                 finish_time = clock answered k\<rparr>))))"

text \<open>
  The executor: its model name and the coroutines submitted to its event loop that have
  not completed yet, each with the arguments it was created with and its completion
  callback. The callback is a bound method of a session (named here by the session's user
  id) or a function that drops the result. A coroutine holds the very list of the chat
  history; that list only changes once the coroutine has completed, so a copy is kept.
\<close>

datatype finish_callback = OnRequestFinished int | DropResult

record PendingRequest =
  p_messages :: "turn list"
  p_max_tokens :: int
  p_tools :: "string option"
  p_extra_headers :: "(string \<times> string) list option"
  p_callback :: finish_callback

record RequestExecutor =
  model :: string
  loop :: "PendingRequest list"

definition launch_request ::
  "ChatHistory \<Rightarrow> int \<Rightarrow> finish_callback \<Rightarrow> string option \<Rightarrow>
     (string \<times> string) list option \<Rightarrow> RequestExecutor \<Rightarrow> RequestExecutor" where
  "launch_request chat_history mt cb tls hdrs ex =
     (let messages = get_messages_for_openai chat_history
      in ex\<lparr>loop := loop ex @
           [\<lparr>p_messages = messages, p_max_tokens = mt, p_tools = tls,
             p_extra_headers = hdrs, p_callback = cb\<rparr>]\<rparr>)"

text \<open>Running a submitted coroutine to its end, against an endpoint and a clock.\<close>

definition run_coroutine ::
  "client \<Rightarrow> clock \<Rightarrow> string \<Rightarrow> PendingRequest \<Rightarrow>
     CompletionRequest list \<times> (error + Response)" where
  "run_coroutine cl clock mdl p =
     async_launch_request cl clock mdl (p_messages p) (p_max_tokens p) (p_tools p)
       (p_extra_headers p)"

section \<open>UserSession\<close>

text \<open>One conversation of the ShareGPT file, as far as the program reads it.\<close>

record ShareGPTTurn =
  turn_value :: string
  num_tokens :: int

record ShareGPTEntry =
  num_round :: int
  conversations :: "ShareGPTTurn list"

text \<open>
  The attributes \<^verbatim>\<open>sharegpt_data\<close> and \<^verbatim>\<open>start_with_gpt\<close> exist only on a session
  created with \<^verbatim>\<open>use_sharegpt\<close>, and are read only there; on the other sessions the
  record holds \<open>None\<close> and \<open>False\<close>.
\<close>

record UserSession =
  user_config :: UserConfig
  app :: "App option"
  last_request_time :: "real option"
  chat_history :: ChatHistory
  question_id :: int
  use_sharegpt :: bool
  sharegpt_data :: "ShareGPTEntry option"
  start_with_gpt :: bool
  has_unfinished_request :: bool
  last_unfinished_log :: real
  prompt_lengths :: "int list"
  generation_lengths :: "int list"
  ttfts :: "real list"
  generation_times :: "real list"
  launch_times :: "real list"
  finish_times :: "real list"
  finished :: bool

definition UserSession_init ::
  "UserConfig \<Rightarrow> App option \<Rightarrow> bool \<Rightarrow> ShareGPTEntry option \<Rightarrow> error + UserSession" where
  "UserSession_init cfg a sharegpt d =
     (let s = \<lparr>user_config = cfg, app = a, last_request_time = None,
                chat_history = ChatHistory_init, question_id = 0, use_sharegpt = sharegpt,
                sharegpt_data = None, start_with_gpt = False,
                has_unfinished_request = False, last_unfinished_log = 0,
                prompt_lengths = [], generation_lengths = [], ttfts = [],
                generation_times = [], launch_times = [], finish_times = [],
                finished = False\<rparr>
      in if sharegpt then
           (case d of
              None \<Rightarrow> Inl TypeError
            | Some e \<Rightarrow>
                Inr (s\<lparr>sharegpt_data := Some e,
                       start_with_gpt := (if num_round e mod 2 = 0 then False else True)\<rparr>))
         else Inr s)"

definition update_result :: "Response \<Rightarrow> UserSession \<Rightarrow> UserSession" where
  "update_result response s =
     s\<lparr>prompt_lengths := prompt_lengths s @ [Response.prompt_tokens response],
       generation_lengths := generation_lengths s @ [generation_tokens response],
       ttfts := ttfts s @ [ttft response],
       generation_times := generation_times s @ [generation_time response],
       launch_times := launch_times s @ [launch_time response],
       finish_times := finish_times s @ [finish_time response]\<rparr>"

definition gen_dummy_text :: "int \<Rightarrow> string" where
  "gen_dummy_text len = join '' '' (replicate (nat len) ''hi'')"

definition build_system_prompt :: "UserSession \<Rightarrow> string" where
  "build_system_prompt s =
     (case app s of
        Some a \<Rightarrow> systemPrompt a
      | None \<Rightarrow>
          (let dummy_text_sys = gen_dummy_text (UserConfig.system_prompt_len (user_config s));
               dummy_text_user = gen_dummy_text (UserConfig.user_info_len (user_config s))
           in ''Hi, here's some system prompt: '' @ dummy_text_sys @ ''.''
              @ ''For user '' @ str_int (user_id (user_config s)) @ '', ''
              @ ''here are some other context: '' @ dummy_text_user @ ''.''))"

text \<open>\<^verbatim>\<open>_build_new_question\<close>; the string drawn by \<^verbatim>\<open>random.choices\<close> is the
  parameter \<open>rnd\<close>.\<close>

definition build_new_question :: "string \<Rightarrow> UserSession \<Rightarrow> string \<times> UserSession" where
  "build_new_question rnd s =
     (let s' = s\<lparr>question_id := question_id s + 1\<rparr>
      in (''Here's question #'' @ str_int (question_id s') @ '': can you tell me ''
          @ ''a new long story with a happy ending? ''
          @ ''Here's a random string: '' @ rnd, s'))"

definition get_all_rag_docs :: "UserSession \<Rightarrow> string" where
  "get_all_rag_docs s =
     (case app s of
        None \<Rightarrow> []
      | Some a \<Rightarrow> (if ragDocs a = [] then [] else join [CHR 0x0A] (ragDocs a)))"

text \<open>The first half of \<^verbatim>\<open>_launch_new_request\<close>: the prompt of the round, with the
  round counter advanced.\<close>

definition next_prompt :: "string \<Rightarrow> UserSession \<Rightarrow> error + (string \<times> UserSession)" where
  "next_prompt rnd s =
     (if use_sharegpt s then
        (case sharegpt_data s of
           None \<Rightarrow> Inl TypeError
         | Some d \<Rightarrow>
             bind_err
               (py_index (conversations d)
                  (if start_with_gpt s then 2 * question_id s + 1 else 2 * question_id s))
               (\<lambda>c. Inr (turn_value c, s\<lparr>question_id := question_id s + 1\<rparr>)))
      else
        (let rag_docs = get_all_rag_docs s;
             (p, s') = build_new_question rnd s
         in Inr (rag_docs @ p, s')))"

text \<open>The token limit of the round, read after the counter was advanced.\<close>

definition round_max_tokens :: "UserSession \<Rightarrow> error + int" where
  "round_max_tokens s =
     (if use_sharegpt s then
        (case sharegpt_data s of
           None \<Rightarrow> Inl TypeError
         | Some d \<Rightarrow>
             bind_err
               (py_index (conversations d)
                  (if start_with_gpt s then 2 * question_id s else 2 * question_id s - 1))
               (\<lambda>c. Inr (min (num_tokens c) (UserConfig.answer_len (user_config s)))))
      else Inr (UserConfig.answer_len (user_config s)))"

definition launch_new_request ::
  "real \<Rightarrow> string \<Rightarrow> UserSession \<Rightarrow> RequestExecutor \<Rightarrow>
     error + (UserSession \<times> RequestExecutor)" where
  "launch_new_request timestamp rnd s ex =
     bind_err (next_prompt rnd s) (\<lambda>(p, s1).
       let p' = (if length (chat_history s1) = 0 then build_system_prompt s1 @ p else p)
       in bind_err (on_user_query p' (chat_history s1)) (\<lambda>h.
            let s2 = s1\<lparr>chat_history := h\<rparr>
            in bind_err (round_max_tokens s2) (\<lambda>mt.
                 let tls = (case app s2 of Some a \<Rightarrow> Some (tools a) | None \<Rightarrow> None);
                     ex' = launch_request (chat_history s2) mt
                             (OnRequestFinished (user_id (user_config s2))) tls
                             (Some [(''x-user-id'', str_int (user_id (user_config s2)))]) ex
                 in Inr (s2\<lparr>has_unfinished_request := True,
                            last_request_time := Some timestamp\<rparr>, ex'))))"

definition on_request_finished :: "Response \<Rightarrow> UserSession \<Rightarrow> error + UserSession" where
  "on_request_finished response s =
     bind_err (on_system_response (body response) (chat_history s)) (\<lambda>h.
       Inr (update_result response (s\<lparr>chat_history := h, has_unfinished_request := False\<rparr>)))"

definition set_internal_state :: "real \<Rightarrow> real \<Rightarrow> UserSession \<Rightarrow> error + UserSession" where
  "set_internal_state offset timestamp s =
     (if \<not> length (chat_history s) = 0 then Inl AssertionError
      else
        bind_err (py_truediv offset (gap_between_requests (user_config s))) (\<lambda>q.
          let num_passed_questions = py_int q + 1;
              passed_time =
                real_of_int (num_passed_questions - 1) * gap_between_requests (user_config s)
          in Inr (s\<lparr>last_request_time := Some (timestamp - offset + passed_time),
                     question_id := num_passed_questions\<rparr>)))"

definition unfinished_warning :: "UserSession \<Rightarrow> string" where
  "unfinished_warning s =
     ''User '' @ str_int (user_id (user_config s)) @ '' has an unfinished ''
     @ ''request and unable to fit the QPS requirement.''"

text \<open>
  \<^verbatim>\<open>UserSession.step\<close>. It returns the session, the executor, and the warnings it
  logged. An exception of \<^verbatim>\<open>_launch_new_request\<close> leaves \<^verbatim>\<open>step\<close> and, uncaught by
  every caller, ends the program.
\<close>

definition step ::
  "real \<Rightarrow> string \<Rightarrow> UserSession \<Rightarrow> RequestExecutor \<Rightarrow>
     error + (UserSession \<times> RequestExecutor \<times> string list)" where
  "step timestamp rnd s ex =
     (if question_id s \<ge> UserConfig.num_rounds (user_config s) \<and> \<not> has_unfinished_request s
      then Inr (s\<lparr>finished := True\<rparr>, ex, [])
      else
        (case last_request_time s of
           None \<Rightarrow>
             bind_err (launch_new_request timestamp rnd s ex) (\<lambda>(s', ex'). Inr (s', ex', []))
         | Some lrt \<Rightarrow>
             (if timestamp - lrt > gap_between_requests (user_config s) then
                (if has_unfinished_request s then
                   (if timestamp - last_unfinished_log s > 10
                    then Inr (s\<lparr>last_unfinished_log := timestamp\<rparr>, ex, [unfinished_warning s])
                    else Inr (s, ex, []))
                 else
                   bind_err (launch_new_request timestamp rnd s ex)
                     (\<lambda>(s', ex'). Inr (s', ex', [])))
              else Inr (s, ex, []))))"

text \<open>\<^verbatim>\<open>summary\<close>: the six lists have to be of one length for the frame to be
  built.\<close>

definition summary :: "UserSession \<Rightarrow> error + DataFrame" where
  "summary s =
     (let n = length (prompt_lengths s)
      in if length (generation_lengths s) = n \<and> length (ttfts s) = n
            \<and> length (generation_times s) = n \<and> length (launch_times s) = n
            \<and> length (finish_times s) = n
         then Inr (map (\<lambda>i. \<lparr>Row.prompt_tokens = prompt_lengths s ! i,
                              Row.generation_tokens = generation_lengths s ! i,
                              Row.ttft = ttfts s ! i,
                              Row.generation_time = generation_times s ! i,
                              Row.user_id = user_id (user_config s),
                              Row.question_id = int i + 1,
                              Row.launch_time = launch_times s ! i,
                              Row.finish_time = finish_times s ! i\<rparr>) [0..<n])
         else Inl ValueError)"

section \<open>Completion of a request\<close>

text \<open>
  \<^verbatim>\<open>launch_request\<close> registers \<^verbatim>\<open>lambda x: finish_callback(x.result())\<close> as the
  future's done-callback. When the coroutine raised, \<^verbatim>\<open>x.result()\<close> raises again and
  \<^verbatim>\<open>finish_callback\<close> is not called; an exception of a done-callback is logged by the
  future and goes no further. \<^verbatim>\<open>_on_request_finished\<close> raises, if at all, before it
  changes the session.
\<close>

definition real_callback :: "error + Response \<Rightarrow> UserSession \<Rightarrow> UserSession" where
  "real_callback x s =
     (case x of
        Inl e \<Rightarrow> s
      | Inr response \<Rightarrow>
          (case on_request_finished response s of Inl e \<Rightarrow> s | Inr s' \<Rightarrow> s'))"

definition deliver :: "finish_callback \<Rightarrow> error + Response \<Rightarrow> UserSession \<Rightarrow> UserSession" where
  "deliver cb x s =
     (case cb of
        DropResult \<Rightarrow> s
      | OnRequestFinished uid \<Rightarrow>
          (if uid = user_id (user_config s) then real_callback x s else s))"

text \<open>The event loop without its \<open>i\<close>-th coroutine.\<close>

definition without :: "nat \<Rightarrow> RequestExecutor \<Rightarrow> RequestExecutor" where
  "without i ex = ex\<lparr>loop := take i (loop ex) @ drop (Suc i) (loop ex)\<rparr>"

text \<open>
  What happens to a session and the executor from outside: a tick of the controller at a
  time stamp (with the random strings the tick draws, by user id), or the completion of
  the \<open>i\<close>-th coroutine of the loop against an endpoint and a clock, in any order.
  The program runs the ticks on its main thread and the callbacks on the thread of the
  event loop; here a tick and a callback each happen as a whole, one after the other. A
  coroutine and its callback are taken together: the request is in flight until its
  callback has run.
\<close>

datatype event =
    Tick real "int \<Rightarrow> string"
  | Completes nat client clock

fun session_event ::
  "event \<Rightarrow> UserSession \<times> RequestExecutor \<Rightarrow> error + (UserSession \<times> RequestExecutor)" where
  "session_event (Tick t rnd) (s, ex) =
     bind_err (step t (rnd (user_id (user_config s))) s ex) (\<lambda>(s', ex', w). Inr (s', ex'))"
| "session_event (Completes i cl clock) (s, ex) =
     (if i < length (loop ex) then
        (let p = loop ex ! i;
             x = snd (run_coroutine cl clock (RequestExecutor.model ex) p)
         in Inr (deliver (p_callback p) x s, without i ex))
      else Inr (s, ex))"

fun session_run ::
  "event list \<Rightarrow> UserSession \<times> RequestExecutor \<Rightarrow> error + (UserSession \<times> RequestExecutor)" where
  "session_run [] st = Inr st"
| "session_run (ev # evs) st = bind_err (session_event ev st) (session_run evs)"

section \<open>UserSessionManager\<close>

text \<open>The attribute \<^verbatim>\<open>sharegpt_data\<close> exists only with \<^verbatim>\<open>use_sharegpt\<close>; the record
  holds the empty list otherwise.\<close>

record UserSessionManager =
  workload_config :: WorkloadConfig
  sessions :: "UserSession list"
  apps_manager :: AppsManager
  gap_between_users :: real
  ramp_up_time :: real
  user_id :: int
  last_user_join :: real
  session_summaries :: "DataFrame list"
  start_time :: "real option"
  need_ramp_up :: bool
  use_sharegpt :: bool
  sharegpt_data :: "ShareGPTEntry list"

definition load_sharegpt_data ::
  "error + ShareGPTEntry list \<Rightarrow> UserSessionManager \<Rightarrow> error + UserSessionManager" where
  "load_sharegpt_data file m =
     (case file of
        Inl e \<Rightarrow> Inl e
      | Inr ds \<Rightarrow>
          Inr (m\<lparr>sharegpt_data :=
                 filter (\<lambda>d. num_round d > 2 * WorkloadConfig.num_rounds (workload_config m)) ds\<rparr>))"

text \<open>\<^verbatim>\<open>__init__\<close>; \<open>fs\<close> gives the parsed apps file of a path and \<open>sharegpt_file\<close>
  the parsed \<^verbatim>\<open>ShareGPT.json\<close>.\<close>

definition UserSessionManager_init ::
  "(string \<Rightarrow> apps_file) \<Rightarrow> error + ShareGPTEntry list \<Rightarrow> WorkloadConfig \<Rightarrow> int \<Rightarrow> bool \<Rightarrow>
     error + UserSessionManager" where
  "UserSessionManager_init fs sharegpt_file wc init_user_id sharegpt =
     bind_err (AppsManager_init (fs (apps_file_path wc)) (WorkloadConfig.users_per_app wc))
       (\<lambda>am.
     bind_err (py_truediv (real_of_int (num_users wc)) (qps wc))
       (\<lambda>gap_between_requests_per_user.
     let session_alive_time =
           gap_between_requests_per_user * real_of_int (WorkloadConfig.num_rounds wc - 1)
     in
     bind_err (py_truediv session_alive_time (real_of_int (num_users wc + 0)))
       (\<lambda>gbu.
     let m = \<lparr>workload_config = wc, sessions = [], apps_manager = am,
              gap_between_users = gbu,
              ramp_up_time = real_of_int (num_users wc) * gbu,
              user_id = init_user_id, last_user_join = 0, session_summaries = [],
              start_time = None, need_ramp_up = True, use_sharegpt = sharegpt,
              sharegpt_data = []\<rparr>
     in if sharegpt then load_sharegpt_data sharegpt_file m else Inr m)))"

definition create_user_session ::
  "UserSessionManager \<Rightarrow> error + (UserSession \<times> UserSessionManager)" where
  "create_user_session m =
     (let m1 = m\<lparr>user_id := user_id m + 1\<rparr>
      in bind_err (new_user_config (user_id m1) (workload_config m1)) (\<lambda>cfg.
         bind_err (get_app_for_user (user_id m1) (apps_manager m1)) (\<lambda>(a, am).
           let m2 = m1\<lparr>apps_manager := am\<rparr>
           in bind_err
                (if use_sharegpt m2 then
                   bind_err (py_index (sharegpt_data m2) (user_id m2))
                     (\<lambda>d. UserSession_init cfg (Some a) True (Some d))
                 else UserSession_init cfg (Some a) False None)
                (\<lambda>user_session.
                   Inr (user_session, m2\<lparr>sessions := sessions m2 @ [user_session]\<rparr>)))))"

text \<open>
  The loop of \<^verbatim>\<open>_ramp_up\<close> over \<^verbatim>\<open>range(num_users)\<close>. The new session is the last
  element of \<^verbatim>\<open>self.sessions\<close>, so \<^verbatim>\<open>set_internal_state\<close> on it changes that element.
\<close>

fun ramp_up_loop ::
  "real \<Rightarrow> real \<Rightarrow> nat list \<Rightarrow> UserSessionManager \<Rightarrow> error + UserSessionManager" where
  "ramp_up_loop timestamp rut [] m = Inr m"
| "ramp_up_loop timestamp rut (i # rest) m =
     (case create_user_session m of
        Inl e \<Rightarrow> Inl e
      | Inr (new_session, m1) \<Rightarrow>
          (let m2 = m1\<lparr>last_user_join := timestamp\<rparr>;
               offset = rut - real i * gap_between_users m2
           in if offset < 0 then Inr m2
              else
                (case set_internal_state offset timestamp new_session of
                   Inl e \<Rightarrow> Inl e
                 | Inr s' \<Rightarrow>
                     ramp_up_loop timestamp rut rest
                       (m2\<lparr>sessions := butlast (sessions m2) @ [s']\<rparr>))))"

definition ramp_up :: "real \<Rightarrow> real \<Rightarrow> UserSessionManager \<Rightarrow> error + UserSessionManager" where
  "ramp_up timestamp rut m =
     bind_err (ramp_up_loop timestamp rut [0..<nat (num_users (workload_config m))] m)
       (\<lambda>m'. Inr (m'\<lparr>need_ramp_up := False\<rparr>))"

fun append_summaries :: "UserSession list \<Rightarrow> DataFrame list \<Rightarrow> error + DataFrame list" where
  "append_summaries [] acc = Inr acc"
| "append_summaries (s # rest) acc =
     (case summary s of Inl e \<Rightarrow> Inl e | Inr d \<Rightarrow> append_summaries rest (acc @ [d]))"

definition remove_finished_sessions :: "UserSessionManager \<Rightarrow> error + UserSessionManager" where
  "remove_finished_sessions m =
     (let sessions_to_remove = filter finished (sessions m)
      in bind_err
           (if length sessions_to_remove > 0
            then append_summaries sessions_to_remove (session_summaries m)
            else Inr (session_summaries m))
           (\<lambda>ss. Inr (m\<lparr>session_summaries := ss,
                         sessions := filter (\<lambda>s. \<not> finished s) (sessions m)\<rparr>)))"

text \<open>The loop of \<^verbatim>\<open>UserSessionManager.step\<close> over the sessions.\<close>

fun step_sessions ::
  "real \<Rightarrow> (int \<Rightarrow> string) \<Rightarrow> UserSession list \<Rightarrow> RequestExecutor \<Rightarrow>
     error + (UserSession list \<times> RequestExecutor \<times> string list)" where
  "step_sessions timestamp rnd [] ex = Inr ([], ex, [])"
| "step_sessions timestamp rnd (s # rest) ex =
     (case step timestamp (rnd (UserConfig.user_id (user_config s))) s ex of
        Inl e \<Rightarrow> Inl e
      | Inr (s', ex', w) \<Rightarrow>
          (case step_sessions timestamp rnd rest ex' of
             Inl e \<Rightarrow> Inl e
           | Inr (rest', ex'', ws) \<Rightarrow> Inr (s' # rest', ex'', w @ ws)))"

text \<open>The admission test of \<^verbatim>\<open>UserSessionManager.step\<close>.\<close>

definition admits :: "real \<Rightarrow> UserSessionManager \<Rightarrow> bool" where
  "admits timestamp m =
     (num_users (workload_config m) > int (length (sessions m))
      \<and> timestamp - last_user_join m > gap_between_users m)"

definition admit :: "real \<Rightarrow> UserSessionManager \<Rightarrow> error + UserSessionManager" where
  "admit timestamp m =
     (if admits timestamp m then
        bind_err (create_user_session m)
          (\<lambda>(new_session, m'). Inr (m'\<lparr>last_user_join := timestamp\<rparr>))
      else Inr m)"

definition UserSessionManager_step ::
  "real \<Rightarrow> (int \<Rightarrow> string) \<Rightarrow> UserSessionManager \<Rightarrow> RequestExecutor \<Rightarrow>
     error + (UserSessionManager \<times> RequestExecutor \<times> string list)" where
  "UserSessionManager_step timestamp rnd m ex =
     bind_err (if need_ramp_up m then ramp_up timestamp (ramp_up_time m) m else Inr m) (\<lambda>m1.
       let m2 = (if start_time m1 = None then m1\<lparr>start_time := Some timestamp\<rparr> else m1)
       in bind_err (admit timestamp m2) (\<lambda>m3.
            bind_err (step_sessions timestamp rnd (sessions m3) ex) (\<lambda>(ss, ex', ws).
              bind_err (remove_finished_sessions (m3\<lparr>sessions := ss\<rparr>)) (\<lambda>m4.
                Inr (m4, ex', ws)))))"

text \<open>The controller's ticks and the completions of coroutines, in any order, on the
  manager and the executor.\<close>

fun manager_event ::
  "event \<Rightarrow> UserSessionManager \<times> RequestExecutor \<Rightarrow>
     error + (UserSessionManager \<times> RequestExecutor)" where
  "manager_event (Tick t rnd) (m, ex) =
     bind_err (UserSessionManager_step t rnd m ex) (\<lambda>(m', ex', ws). Inr (m', ex'))"
| "manager_event (Completes i cl clock) (m, ex) =
     (if i < length (loop ex) then
        (let p = loop ex ! i;
             x = snd (run_coroutine cl clock (RequestExecutor.model ex) p)
         in Inr (m\<lparr>sessions := map (deliver (p_callback p) x) (sessions m)\<rparr>, without i ex))
      else Inr (m, ex))"

fun manager_run ::
  "event list \<Rightarrow> UserSessionManager \<times> RequestExecutor \<Rightarrow>
     error + (UserSessionManager \<times> RequestExecutor)" where
  "manager_run [] st = Inr st"
| "manager_run (ev # evs) st = bind_err (manager_event ev st) (manager_run evs)"

fun tick_times :: "event list \<Rightarrow> real list" where
  "tick_times [] = []"
| "tick_times (Tick t rnd # evs) = t # tick_times evs"
| "tick_times (Completes i cl clock # evs) = tick_times evs"

section \<open>ProcessSummary\<close>

text \<open>
  \<^verbatim>\<open>ProcessSummary\<close> up to the quotients by \<^verbatim>\<open>total_time\<close>: the rows it selects,
  the two bounds as they stand when \<^verbatim>\<open>total_time\<close> is computed, and whether the first
  quotient raises. A bound is false as a condition when it is \<^verbatim>\<open>None\<close> or zero.
  \<^verbatim>\<open>min()\<close> and \<^verbatim>\<open>max()\<close> of an empty column are not a number, written \<open>None\<close>.
  The arguments \<^verbatim>\<open>pending_queries\<close> and \<^verbatim>\<open>qps\<close> enter only the rates that are
  printed, floating-point quotients which are not modelled.
\<close>

definition col_min :: "real list \<Rightarrow> real option" where
  "col_min xs = (case xs of [] \<Rightarrow> None | x # rest \<Rightarrow> Some (fold min rest x))"

definition col_max :: "real list \<Rightarrow> real option" where
  "col_max xs = (case xs of [] \<Rightarrow> None | x # rest \<Rightarrow> Some (fold max rest x))"

text \<open>The first statement: the number of launched queries and the frame that is kept.\<close>

definition select_rows :: "DataFrame \<Rightarrow> real option \<Rightarrow> real option \<Rightarrow> nat \<times> DataFrame" where
  "select_rows df st en =
     (if truthy st \<and> truthy en then
        (length (filter (\<lambda>r. the st \<le> Row.launch_time r \<and> Row.launch_time r \<le> the en) df),
         filter (\<lambda>r. the st \<le> Row.finish_time r \<and> Row.finish_time r \<le> the en) df)
      else (length df, df))"

text \<open>The two statements that replace a bound that is \<^verbatim>\<open>None\<close>, on the frame that was
  kept.\<close>

definition fill_bounds :: "DataFrame \<Rightarrow> real option \<Rightarrow> real option \<Rightarrow> real option \<times> real option" where
  "fill_bounds df st en =
     (if st = None then col_min (map Row.launch_time df) else st,
      if en = None then col_max (map Row.finish_time df) else en)"

record Summary =
  launched_queries :: nat
  frame :: DataFrame
  window_start :: "real option"
  window_end :: "real option"

text \<open>
  \<^verbatim>\<open>total_requests / total_time\<close> raises ZeroDivisionError when \<^verbatim>\<open>total_time\<close> is
  the zero of Python's \<^verbatim>\<open>float\<close>, which it is when both bounds were passed and are
  equal. A bound taken from the frame is a number of numpy, and so is the difference
  then; a quotient by such a zero is \<^verbatim>\<open>inf\<close> or \<^verbatim>\<open>nan\<close> with a warning, and no
  exception.
\<close>

definition ProcessSummary :: "DataFrame \<Rightarrow> real option \<Rightarrow> real option \<Rightarrow> error + Summary" where
  "ProcessSummary df st en =
     (let (launched, df') = select_rows df st en;
          (st', en') = fill_bounds df' st en
      in if st \<noteq> None \<and> en \<noteq> None \<and> the en - the st = 0 then Inl ZeroDivisionError
         else Inr \<lparr>launched_queries = launched, frame = df', window_start = st',
                   window_end = en'\<rparr>)"

section \<open>Auxiliary notions for the properties\<close>

text \<open>Three endpoints. The first streams a chunk of text without a usage block and
  reports the usage on a whole response; the second streams a usage block that counts no
  completion token; the third streams a chunk of text and then a usage block with both
  counts.\<close>

definition no_usage_endpoint :: client where
  "no_usage_endpoint req =
     (if stream req
      then Inr (Streamed [\<lparr>choices = [\<lparr>choice_text = Some ''hi''\<rparr>], usage = None\<rparr>] None)
      else Inr (Whole \<lparr>choices = [],
                  usage = Some \<lparr>completion_tokens = 1, CompletionUsage.prompt_tokens = 5\<rparr>\<rparr>))"

definition zero_count_endpoint :: client where
  "zero_count_endpoint req =
     Inr (Streamed [\<lparr>choices = [],
            usage = Some \<lparr>completion_tokens = 0, CompletionUsage.prompt_tokens = 5\<rparr>\<rparr>] None)"

definition usage_endpoint :: client where
  "usage_endpoint req =
     Inr (Streamed [\<lparr>choices = [\<lparr>choice_text = Some ''hi''\<rparr>], usage = None\<rparr>,
                    \<lparr>choices = [],
                     usage = Some \<lparr>completion_tokens = 3, CompletionUsage.prompt_tokens = 7\<rparr>\<rparr>]
            None)"

text \<open>A clock on which every call that was answered has taken ten seconds.\<close>

definition slow_clock :: clock where
  "slow_clock rs k = 10 * real (length rs) + real k"

text \<open>A frame of three rows that are sorted neither by launch time nor by finish time.\<close>

definition example_frame :: DataFrame where
  "example_frame =
     [\<lparr>Row.prompt_tokens = 10, Row.generation_tokens = 4, Row.ttft = 1, Row.generation_time = 3,
       Row.user_id = 1, Row.question_id = 1, Row.launch_time = 5, Row.finish_time = 9\<rparr>,
      \<lparr>Row.prompt_tokens = 12, Row.generation_tokens = 4, Row.ttft = 1, Row.generation_time = 1,
       Row.user_id = 2, Row.question_id = 1, Row.launch_time = 1, Row.finish_time = 3\<rparr>,
      \<lparr>Row.prompt_tokens = 12, Row.generation_tokens = 4, Row.ttft = 1, Row.generation_time = 1,
       Row.user_id = 3, Row.question_id = 1, Row.launch_time = 6, Row.finish_time = 8\<rparr>]"

text \<open>The time stamps of the ticks at which a session logs its warning, along a sequence
  of ticks and completions that is run as far as it goes.\<close>

fun warning_times :: "event list \<Rightarrow> UserSession \<times> RequestExecutor \<Rightarrow> real list" where
  "warning_times [] st = []"
| "warning_times (Tick t rnd # evs) (s, ex) =
     (case step t (rnd (UserConfig.user_id (user_config s))) s ex of
        Inl e \<Rightarrow> []
      | Inr (s', ex', w) \<Rightarrow> (if w = [] then [] else [t]) @ warning_times evs (s', ex'))"
| "warning_times (Completes i cl clock # evs) (s, ex) =
     (case session_event (Completes i cl clock) (s, ex) of
        Inl e \<Rightarrow> []
      | Inr st' \<Rightarrow> warning_times evs st')"

text \<open>Each number of the list exceeds the one before it by more than \<open>d\<close>.\<close>

fun spaced :: "real \<Rightarrow> real list \<Rightarrow> bool" where
  "spaced d (a # b # r) = (b - a > d \<and> spaced d (b # r))"
| "spaced d _ = True"

text \<open>A session of two rounds, one request every two seconds, as it is created, then
  with its first request in flight since time 100, then with that request answered; and
  an executor with an idle event loop.\<close>

definition example_session :: UserSession where
  "example_session =
     \<lparr>user_config = \<lparr>UserConfig.user_id = 7, system_prompt_len = 0, user_info_len = 0,
                      answer_len = 16, gap_between_requests = 2, num_rounds = 2,
                      enable_user_id = False\<rparr>,
      app = Some \<lparr>systemPrompt = ''sys '', tools = ''none'', ragDocs = []\<rparr>,
      last_request_time = None, chat_history = [], question_id = 0,
      UserSession.use_sharegpt = False, UserSession.sharegpt_data = None,
      start_with_gpt = False, has_unfinished_request = False, last_unfinished_log = 0,
      prompt_lengths = [], generation_lengths = [], ttfts = [], generation_times = [],
      launch_times = [], finish_times = [], finished = False\<rparr>"

definition busy_session :: UserSession where
  "busy_session =
     example_session\<lparr>last_request_time := Some 100, question_id := 1,
       chat_history := [\<lparr>role = ''user'', content = ''q1''\<rparr>],
       has_unfinished_request := True\<rparr>"

definition idle_session :: UserSession where
  "idle_session =
     example_session\<lparr>last_request_time := Some 100, question_id := 1,
       chat_history := [\<lparr>role = ''user'', content = ''q1''\<rparr>,
                        \<lparr>role = ''assistant'', content = ''a1''\<rparr>]\<rparr>"

definition idle_executor :: RequestExecutor where
  "idle_executor = \<lparr>RequestExecutor.model = ''m'', loop = []\<rparr>"

text \<open>
  What firing a round at time \<open>t\<close> makes of a session and an executor: the outcome
  \<open>res\<close> of a step is the session with one more user turn at the end of its history,
  the round counter advanced by one, the request marked as unfinished and the time of the
  last request set to \<open>t\<close>, and the executor with one more coroutine at the end of its
  loop, which was given that history and reports to this session; nothing is logged.
\<close>

definition fires_round ::
  "real \<Rightarrow> UserSession \<Rightarrow> RequestExecutor \<Rightarrow>
     error + (UserSession \<times> RequestExecutor \<times> string list) \<Rightarrow> bool" where
  "fires_round t s ex res =
     (case res of
        Inl e \<Rightarrow> False
      | Inr (s', ex', w) \<Rightarrow>
          w = [] \<and>
          chat_history s' \<noteq> [] \<and> butlast (chat_history s') = chat_history s \<and>
          role (last (chat_history s')) = ''user'' \<and>
          s' = s\<lparr>UserSession.question_id := UserSession.question_id s + 1,
                  chat_history := chat_history s',
                  has_unfinished_request := True, last_request_time := Some t\<rparr> \<and>
          loop ex' \<noteq> [] \<and> butlast (loop ex') = loop ex \<and>
          ex' = ex\<lparr>loop := loop ex'\<rparr> \<and>
          p_callback (last (loop ex')) = OnRequestFinished (UserConfig.user_id (user_config s)) \<and>
          p_messages (last (loop ex')) = chat_history s')"



text \<open>A workload of two users and two rounds at one request per second, and a file
  system whose apps file holds one app.\<close>

definition example_workload :: WorkloadConfig where
  "example_workload =
     \<lparr>num_users = 2, WorkloadConfig.system_prompt_len = 0, WorkloadConfig.user_info_len = 0,
      WorkloadConfig.answer_len = 16, WorkloadConfig.num_rounds = 2, qps = 1,
      WorkloadConfig.model = ''m'', WorkloadConfig.enable_user_id = False,
      apps_file_path = ''apps.json'', WorkloadConfig.users_per_app = 1\<rparr>"

definition example_files :: "string \<Rightarrow> apps_file" where
  "example_files path =
     (if path = ''apps.json''
      then Inr [\<lparr>d_systemPrompt = Some ''sys '', d_tools = Some ''none'', d_ragDocs = Some []\<rparr>]
      else Inl OSError)"


text \<open>The manager that is constructed for this workload.\<close>

definition example_manager :: UserSessionManager where
  "example_manager =
     \<lparr>workload_config = example_workload, sessions = [],
      apps_manager =
        \<lparr>apps = [\<lparr>systemPrompt = ''sys '', tools = ''none'', ragDocs = []\<rparr>],
         user_app_map = Map.empty, AppsManager.users_per_app = 1\<rparr>,
      gap_between_users = 1, ramp_up_time = 2, UserSessionManager.user_id = 0,
      last_user_join = 0, session_summaries = [], UserSessionManager.start_time = None,
      need_ramp_up = True, UserSessionManager.use_sharegpt = False,
      UserSessionManager.sharegpt_data = []\<rparr>"

text \<open>The requests of a session that are in flight: the coroutines of the loop that
  report to this session.\<close>

definition in_flight :: "UserSession \<Rightarrow> RequestExecutor \<Rightarrow> PendingRequest list" where
  "in_flight s ex =
     filter (\<lambda>p. p_callback p = OnRequestFinished (UserConfig.user_id (user_config s))) (loop ex)"

text \<open>What holds of a session and the executor throughout: at most one request of the
  session is in flight, the session knows of it, and a session with a request unfinished has
  sent one.\<close>

definition one_at_most :: "UserSession \<Rightarrow> RequestExecutor \<Rightarrow> bool" where
  "one_at_most s ex =
     (length (in_flight s ex) \<le> 1
      \<and> (in_flight s ex \<noteq> [] \<longrightarrow> has_unfinished_request s)
      \<and> (has_unfinished_request s \<longrightarrow> last_request_time s \<noteq> None))"




section \<open>Properties of ChatHistory\<close>

lemma rotation_append:
  "rotation u (xs @ [a]) =
     (rotation u xs \<and> role a = (if even (length xs) = u then ''user'' else ''assistant''))"
  by (induction xs arbitrary: u) auto

lemma rotation_last:
  "rotation u xs \<Longrightarrow> xs \<noteq> [] \<Longrightarrow>
     role (last xs) = (if even (length xs) = u then ''assistant'' else ''user'')"
  by (induction xs arbitrary: u) (auto split: if_splits)

lemma rotation_alternating: "rotation u xs \<Longrightarrow> alternating xs"
proof (induction xs arbitrary: u)
  case Nil
  then show ?case by simp
next
  case (Cons a xs)
  from Cons.prems have tl: "rotation (\<not> u) xs"
    and hd: "role a = (if u then ''user'' else ''assistant'')"
    by simp_all
  from tl have alt: "alternating xs" by (rule Cons.IH)
  show ?case
  proof (cases xs)
    case Nil
    then show ?thesis by simp
  next
    case (Cons b r)
    with tl have "role b = (if \<not> u then ''user'' else ''assistant'')" by simp
    with hd have "role a \<noteq> role b" by (simp split: if_splits)
    with alt Cons show ?thesis by simp
  qed
qed

lemma rotation_start: "rotation True xs \<Longrightarrow> \<not> starts_with_assistant xs"
  by (cases xs) (auto simp: starts_with_assistant_def)

lemma on_user_query_rotation:
  "rotation True h \<Longrightarrow> on_user_query q h = Inr h' \<Longrightarrow> rotation True h'"
  using rotation_last [of True h]
  by (auto simp: on_user_query_def rotation_append split: if_splits)

lemma on_system_response_rotation:
  "rotation True h \<Longrightarrow> on_system_response r h = Inr h' \<Longrightarrow> rotation True h'"
  using rotation_last [of True h]
  by (auto simp: on_system_response_def rotation_append split: if_splits)

lemma chat_apply_rotation:
  "rotation True h \<Longrightarrow> chat_apply x h = Inr h' \<Longrightarrow> rotation True h'"
  by (cases x) (auto dest: on_user_query_rotation on_system_response_rotation)

lemma chat_run_rotation:
  "rotation True h \<Longrightarrow> chat_run xs h = Inr h' \<Longrightarrow> rotation True h'"
proof (induction xs arbitrary: h)
  case Nil
  then show ?case by simp
next
  case (Cons x xs)
  then show ?case
    by (auto simp: bind_err_def split: sum.splits dest: chat_apply_rotation)
qed

text \<open>
  C8. Appending a user turn raises exactly when the history is non-empty and its last
  turn is not an assistant turn; appending an assistant turn raises exactly when the
  history is empty or its last turn is not a user turn; so a history built from the empty
  one by any sequence of the two calls has no two neighbouring turns of the same role and
  does not start with an assistant turn.
\<close>

theorem chat_history_alternation:
  "(on_user_query q h = Inl AssertionError \<longleftrightarrow> h \<noteq> [] \<and> role (last h) \<noteq> ''assistant'') \<and>
   (on_system_response r h = Inl AssertionError \<longleftrightarrow> h = [] \<or> role (last h) \<noteq> ''user'') \<and>
   (chat_run xs ChatHistory_init = Inr h' \<longrightarrow>
      alternating h' \<and> \<not> starts_with_assistant h')"
proof (intro conjI impI)
  show "on_user_query q h = Inl AssertionError \<longleftrightarrow> h \<noteq> [] \<and> role (last h) \<noteq> ''assistant''"
    by (simp add: on_user_query_def)
  show "on_system_response r h = Inl AssertionError \<longleftrightarrow> h = [] \<or> role (last h) \<noteq> ''user''"
    by (simp add: on_system_response_def)
next
  assume run: "chat_run xs ChatHistory_init = Inr h'"
  have "rotation True ChatHistory_init"
    by (simp add: ChatHistory_init_def)
  then have rot: "rotation True h'"
    using run by (rule chat_run_rotation)
  show "alternating h'" using rot by (rule rotation_alternating)
  show "\<not> starts_with_assistant h'" using rot by (rule rotation_start)
qed

theorem chat_history_alternation_witness:
  "on_user_query ''q2'' [\<lparr>role = ''user'', content = ''q1''\<rparr>] = Inl AssertionError \<and>
   on_system_response ''a0'' [] = Inl AssertionError \<and>
   chat_run [UserQuery ''q1'', SystemResponse ''a1'', UserQuery ''q2''] ChatHistory_init =
     Inr [\<lparr>role = ''user'', content = ''q1''\<rparr>, \<lparr>role = ''assistant'', content = ''a1''\<rparr>,
          \<lparr>role = ''user'', content = ''q2''\<rparr>] \<and>
   alternating [\<lparr>role = ''user'', content = ''q1''\<rparr>, \<lparr>role = ''assistant'', content = ''a1''\<rparr>,
          \<lparr>role = ''user'', content = ''q2''\<rparr>] \<and>
   \<not> starts_with_assistant [\<lparr>role = ''user'', content = ''q1''\<rparr>,
          \<lparr>role = ''assistant'', content = ''a1''\<rparr>, \<lparr>role = ''user'', content = ''q2''\<rparr>]"
  using chat_history_alternation
    [of "''q2''" "[\<lparr>role = ''user'', content = ''q1''\<rparr>]" "''a0''"
        "[UserQuery ''q1'', SystemResponse ''a1'', UserQuery ''q2'']"
        "[\<lparr>role = ''user'', content = ''q1''\<rparr>, \<lparr>role = ''assistant'', content = ''a1''\<rparr>,
          \<lparr>role = ''user'', content = ''q2''\<rparr>]"]
  by (simp add: ChatHistory_init_def on_user_query_def on_system_response_def bind_err_def
        starts_with_assistant_def)

section \<open>Properties of the AppsManager\<close>

lemma bind_err_simps [simp]:
  "bind_err (Inl e) f = Inl e"
  "bind_err (Inr x) f = f x"
  by (simp_all add: bind_err_def)

text \<open>
  C5 claims that an empty app pool aborts the construction of the AppsManager. It does
  not: the loop over an empty list appends nothing and nothing checks the length.
\<close>

theorem empty_pool_counterexample:
  "AppsManager_init (Inr []) 2 =
     Inr \<lparr>apps = [], user_app_map = Map.empty, AppsManager.users_per_app = 2\<rparr>"
  by (simp add: AppsManager_init_def load_apps_def)

text \<open>
  C5, amended. On an apps file that holds the empty list the construction succeeds with an
  empty pool; the failure comes later, at the first assignment of an app to a user
  (a division by the length of the pool), which is what creating the first session does.
\<close>

theorem empty_pool_fails_at_assign:
  "AppsManager_init (Inr []) upa =
     Inr \<lparr>apps = [], user_app_map = Map.empty, AppsManager.users_per_app = upa\<rparr> \<and>
   assign_app_to_user uid
     \<lparr>apps = [], user_app_map = Map.empty, AppsManager.users_per_app = upa\<rparr> =
     Inl ZeroDivisionError \<and>
   get_app_for_user uid
     \<lparr>apps = [], user_app_map = Map.empty, AppsManager.users_per_app = upa\<rparr> =
     Inl ZeroDivisionError \<and>
   create_user_session
     (m\<lparr>apps_manager :=
          \<lparr>apps = [], user_app_map = Map.empty, AppsManager.users_per_app = upa\<rparr>\<rparr>) =
     Inl ZeroDivisionError"
  by (simp add: AppsManager_init_def load_apps_def assign_app_to_user_def get_app_for_user_def
        create_user_session_def new_user_config_def py_truediv_def Let_def)

section \<open>Properties of the RequestExecutor\<close>

text \<open>
  C9. A stream that yields no chunk at all has no non-empty text chunk, yet the coroutine
  does not return a response for it: the loop variable is read after a loop that never
  bound it, and the exception leaves the coroutine.
\<close>

theorem empty_stream_raises:
  "async_launch_request (\<lambda>req. Inr (Streamed [] None)) clock mdl messages mt tls hdrs =
     ([streaming_request mdl (flatten_messages messages) mt hdrs], Inl UnboundLocalError)"
  by (simp add: async_launch_request_def Let_def)

lemma final_differs: "final_request mdl p mt \<noteq> streaming_request mdl' p' mt' hdrs"
  by (simp add: final_request_def streaming_request_def)

lemma calls_made:
  assumes "cl (streaming_request mdl (flatten_messages messages) mt hdrs) =
             Inr (Streamed chunks None)"
    and "chunks \<noteq> []"
  shows "fst (async_launch_request cl clock mdl messages mt tls hdrs) =
     (if (case usage (last chunks) of
            None \<Rightarrow> True
          | Some u \<Rightarrow> completion_tokens u = 0 \<or> CompletionUsage.prompt_tokens u = 0)
      then [streaming_request mdl (flatten_messages messages) mt hdrs,
            final_request mdl (flatten_messages messages) mt]
      else [streaming_request mdl (flatten_messages messages) mt hdrs])"
  using assms
  by (simp add: async_launch_request_def usage_counts_def Let_def split: option.splits)

lemma counts_returned:
  assumes "cl (streaming_request mdl (flatten_messages messages) mt hdrs) =
             Inr (Streamed chunks None)"
    and "chunks \<noteq> []"
  shows "\<exists>r. snd (async_launch_request cl clock mdl messages mt tls hdrs) = Inr r \<and>
     (Response.prompt_tokens r, Response.generation_tokens r) =
       (case usage (last chunks) of
          Some u \<Rightarrow>
            (if completion_tokens u = 0 \<or> CompletionUsage.prompt_tokens u = 0 then
               (case cl (final_request mdl (flatten_messages messages) mt) of
                  Inr (Whole f) \<Rightarrow>
                    (case usage f of
                       Some v \<Rightarrow> (CompletionUsage.prompt_tokens v, completion_tokens v)
                     | None \<Rightarrow> (CompletionUsage.prompt_tokens u, completion_tokens u))
                | _ \<Rightarrow> (CompletionUsage.prompt_tokens u, completion_tokens u))
             else (CompletionUsage.prompt_tokens u, completion_tokens u))
        | None \<Rightarrow>
            (case cl (final_request mdl (flatten_messages messages) mt) of
               Inr (Whole f) \<Rightarrow>
                 (case usage f of
                    Some v \<Rightarrow> (CompletionUsage.prompt_tokens v, completion_tokens v)
                  | None \<Rightarrow> (0, 0))
             | _ \<Rightarrow> (0, 0)))"
  using assms
  by (simp add: async_launch_request_def usage_counts_def final_counts_def Let_def
        split: option.splits sum.splits api_reply.splits)

lemma reply_leaves_text_and_start:
  assumes "cl (streaming_request mdl (flatten_messages messages) mt hdrs) =
             Inr (Streamed chunks None)"
    and "chunks \<noteq> []"
  shows "\<exists>r r'. snd (async_launch_request cl clock mdl messages mt tls hdrs) = Inr r \<and>
     snd (async_launch_request (cl(final_request mdl (flatten_messages messages) mt := y))
            clock mdl messages mt tls hdrs) = Inr r' \<and>
     body r' = body r \<and> Response.ttft r' = Response.ttft r \<and>
     Response.launch_time r' = Response.launch_time r"
  using assms
    final_differs [of mdl "flatten_messages messages" mt mdl "flatten_messages messages" mt hdrs]
  by (simp add: async_launch_request_def Let_def)

lemma time_read_after_calls:
  assumes "cl (streaming_request mdl (flatten_messages messages) mt hdrs) =
             Inr (Streamed chunks None)"
    and "chunks \<noteq> []"
  shows "\<exists>r n m. snd (async_launch_request cl clock mdl messages mt tls hdrs) = Inr r \<and>
     Response.finish_time r =
       clock (map cl (fst (async_launch_request cl clock mdl messages mt tls hdrs))) m \<and>
     (Response.ttft r \<noteq> 0 \<longrightarrow>
        Response.generation_time r =
          clock (map cl (fst (async_launch_request cl clock mdl messages mt tls hdrs))) n
          - (Response.launch_time r + Response.ttft r))"
  using assms
  by (auto simp add: async_launch_request_def Let_def truthy_def)

text \<open>
  C4, amended. For a stream that ends normally after at least one chunk, the second call
  is made exactly when the last chunk carries no usage block or a usage block in which the
  completion-token or the prompt-token count is zero. The second call passes the model, the
  prompt and the token limit of the first with \<open>stream = False\<close>, and passes neither
  the temperature nor the headers nor the stream options of the first. The two token
  counts of the response are those of the reply to the second call when that reply is a
  whole response with a usage block; when the second call raises or its reply has no usage
  block, and when no second call is made, they are the counts of the stream (zero without
  a usage block). The body, the time to the first token and the launch time are the same
  whatever the second call returns. The finish time, and the generation time when a first
  token was seen, are read from the clock after all the calls that were made have been
  answered, the second one included.
\<close>

theorem fallback_call:
  assumes "cl \<lparr>CompletionRequest.model = mdl, prompt = flatten_messages messages,
               stream = True, max_tokens = mt, temperature = Some 0, extra_headers = hdrs,
               stream_options = Some [(''include_usage'', True)]\<rparr> =
             Inr (Streamed chunks None)"
    and "chunks \<noteq> []"
  shows "fst (async_launch_request cl clock mdl messages mt tls hdrs) =
     (if (case usage (last chunks) of
            None \<Rightarrow> True
          | Some u \<Rightarrow> completion_tokens u = 0 \<or> CompletionUsage.prompt_tokens u = 0)
      then [\<lparr>CompletionRequest.model = mdl, prompt = flatten_messages messages,
              stream = True, max_tokens = mt, temperature = Some 0, extra_headers = hdrs,
              stream_options = Some [(''include_usage'', True)]\<rparr>,
            \<lparr>CompletionRequest.model = mdl, prompt = flatten_messages messages,
              stream = False, max_tokens = mt, temperature = None, extra_headers = None,
              stream_options = None\<rparr>]
      else [\<lparr>CompletionRequest.model = mdl, prompt = flatten_messages messages,
              stream = True, max_tokens = mt, temperature = Some 0, extra_headers = hdrs,
              stream_options = Some [(''include_usage'', True)]\<rparr>]) \<and>
   (\<exists>r. snd (async_launch_request cl clock mdl messages mt tls hdrs) = Inr r \<and>
      (Response.prompt_tokens r, Response.generation_tokens r) =
        (case usage (last chunks) of
           Some u \<Rightarrow>
             (if completion_tokens u = 0 \<or> CompletionUsage.prompt_tokens u = 0 then
                (case cl \<lparr>CompletionRequest.model = mdl, prompt = flatten_messages messages,
                           stream = False, max_tokens = mt, temperature = None,
                           extra_headers = None, stream_options = None\<rparr> of
                   Inr (Whole f) \<Rightarrow>
                     (case usage f of
                        Some v \<Rightarrow> (CompletionUsage.prompt_tokens v, completion_tokens v)
                      | None \<Rightarrow> (CompletionUsage.prompt_tokens u, completion_tokens u))
                 | _ \<Rightarrow> (CompletionUsage.prompt_tokens u, completion_tokens u))
              else (CompletionUsage.prompt_tokens u, completion_tokens u))
         | None \<Rightarrow>
             (case cl \<lparr>CompletionRequest.model = mdl, prompt = flatten_messages messages,
                        stream = False, max_tokens = mt, temperature = None,
                        extra_headers = None, stream_options = None\<rparr> of
                Inr (Whole f) \<Rightarrow>
                  (case usage f of
                     Some v \<Rightarrow> (CompletionUsage.prompt_tokens v, completion_tokens v)
                   | None \<Rightarrow> (0, 0))
              | _ \<Rightarrow> (0, 0))) \<and>
      (\<exists>r'. snd (async_launch_request
                   (cl(\<lparr>CompletionRequest.model = mdl, prompt = flatten_messages messages,
                         stream = False, max_tokens = mt, temperature = None,
                         extra_headers = None, stream_options = None\<rparr> := y))
                   clock mdl messages mt tls hdrs) = Inr r' \<and>
         body r' = body r \<and> Response.ttft r' = Response.ttft r \<and>
         Response.launch_time r' = Response.launch_time r) \<and>
      (\<exists>n m.
         Response.finish_time r =
           clock (map cl (fst (async_launch_request cl clock mdl messages mt tls hdrs))) m \<and>
         (Response.ttft r \<noteq> 0 \<longrightarrow>
            Response.generation_time r =
              clock (map cl (fst (async_launch_request cl clock mdl messages mt tls hdrs))) n
              - (Response.launch_time r + Response.ttft r))))"
proof -
  have req: "cl (streaming_request mdl (flatten_messages messages) mt hdrs) =
               Inr (Streamed chunks None)"
    using assms(1) by (simp add: streaming_request_def)
  note ne = assms(2)
  have sr: "\<lparr>CompletionRequest.model = mdl, prompt = flatten_messages messages,
              stream = True, max_tokens = mt, temperature = Some 0, extra_headers = hdrs,
              stream_options = Some [(''include_usage'', True)]\<rparr> =
            streaming_request mdl (flatten_messages messages) mt hdrs"
    by (simp add: streaming_request_def)
  have fr: "\<lparr>CompletionRequest.model = mdl, prompt = flatten_messages messages,
              stream = False, max_tokens = mt, temperature = None, extra_headers = None,
              stream_options = None\<rparr> =
            final_request mdl (flatten_messages messages) mt"
    by (simp add: final_request_def)
  from counts_returned [where cl = cl and mdl = mdl and messages = messages and mt = mt and hdrs = hdrs
      and chunks = chunks and clock = clock and tls = tls, OF req ne]
  obtain r where r: "snd (async_launch_request cl clock mdl messages mt tls hdrs) = Inr r"
    and counts: "(Response.prompt_tokens r, Response.generation_tokens r) =
       (case usage (last chunks) of
          Some u \<Rightarrow>
            (if completion_tokens u = 0 \<or> CompletionUsage.prompt_tokens u = 0 then
               (case cl (final_request mdl (flatten_messages messages) mt) of
                  Inr (Whole f) \<Rightarrow>
                    (case usage f of
                       Some v \<Rightarrow> (CompletionUsage.prompt_tokens v, completion_tokens v)
                     | None \<Rightarrow> (CompletionUsage.prompt_tokens u, completion_tokens u))
                | _ \<Rightarrow> (CompletionUsage.prompt_tokens u, completion_tokens u))
             else (CompletionUsage.prompt_tokens u, completion_tokens u))
        | None \<Rightarrow>
            (case cl (final_request mdl (flatten_messages messages) mt) of
               Inr (Whole f) \<Rightarrow>
                 (case usage f of
                    Some v \<Rightarrow> (CompletionUsage.prompt_tokens v, completion_tokens v)
                  | None \<Rightarrow> (0, 0))
             | _ \<Rightarrow> (0, 0)))"
    by blast
  from reply_leaves_text_and_start [where y = y and cl = cl and mdl = mdl and messages = messages and mt = mt
      and hdrs = hdrs and chunks = chunks and clock = clock and tls = tls, OF req ne] r
  have same: "\<exists>r'. snd (async_launch_request
                   (cl(final_request mdl (flatten_messages messages) mt := y))
                   clock mdl messages mt tls hdrs) = Inr r' \<and>
         body r' = body r \<and> Response.ttft r' = Response.ttft r \<and>
         Response.launch_time r' = Response.launch_time r"
    by auto
  from time_read_after_calls [where cl = cl and mdl = mdl and messages = messages and mt = mt and hdrs = hdrs
      and chunks = chunks and clock = clock and tls = tls, OF req ne] r
  have times: "\<exists>n m.
         Response.finish_time r =
           clock (map cl (fst (async_launch_request cl clock mdl messages mt tls hdrs))) m \<and>
         (Response.ttft r \<noteq> 0 \<longrightarrow>
            Response.generation_time r =
              clock (map cl (fst (async_launch_request cl clock mdl messages mt tls hdrs))) n
              - (Response.launch_time r + Response.ttft r))"
    by auto
  show ?thesis
    unfolding sr fr
    apply (rule conjI)
     apply (rule calls_made [where cl = cl and mdl = mdl and messages = messages and mt = mt
      and hdrs = hdrs and chunks = chunks, OF req ne])
    apply (rule exI [of _ r])
    using r counts same times by simp
qed

theorem fallback_call_witness:
  "fst (async_launch_request no_usage_endpoint slow_clock ''m''
          [\<lparr>role = ''user'', content = ''q''\<rparr>] 16 None (Some [(''x-user-id'', ''1'')])) =
     [\<lparr>CompletionRequest.model = ''m'', prompt = ''user: q'' @ [CHR 0x0A], stream = True,
       max_tokens = 16, temperature = Some 0,
       extra_headers = Some [(''x-user-id'', ''1'')],
       stream_options = Some [(''include_usage'', True)]\<rparr>,
      \<lparr>CompletionRequest.model = ''m'', prompt = ''user: q'' @ [CHR 0x0A], stream = False,
       max_tokens = 16, temperature = None, extra_headers = None, stream_options = None\<rparr>] \<and>
   snd (async_launch_request no_usage_endpoint slow_clock ''m''
          [\<lparr>role = ''user'', content = ''q''\<rparr>] 16 None (Some [(''x-user-id'', ''1'')])) =
     Inr \<lparr>body = ''hi'', Response.ttft = 11, Response.generation_time = 11,
          Response.prompt_tokens = 5, Response.generation_tokens = 1,
          Response.launch_time = 0, Response.finish_time = 23\<rparr> \<and>
   fst (async_launch_request usage_endpoint slow_clock ''m''
          [\<lparr>role = ''user'', content = ''q''\<rparr>] 16 None (Some [(''x-user-id'', ''1'')])) =
     [\<lparr>CompletionRequest.model = ''m'', prompt = ''user: q'' @ [CHR 0x0A], stream = True,
       max_tokens = 16, temperature = Some 0,
       extra_headers = Some [(''x-user-id'', ''1'')],
       stream_options = Some [(''include_usage'', True)]\<rparr>] \<and>
   snd (async_launch_request usage_endpoint slow_clock ''m''
          [\<lparr>role = ''user'', content = ''q''\<rparr>] 16 None (Some [(''x-user-id'', ''1'')])) =
     Inr \<lparr>body = ''hi'', Response.ttft = 11, Response.generation_time = 1,
          Response.prompt_tokens = 7, Response.generation_tokens = 3,
          Response.launch_time = 0, Response.finish_time = 13\<rparr>"
  using fallback_call [where cl = no_usage_endpoint and clock = slow_clock and mdl = "''m''"
          and messages = "[\<lparr>role = ''user'', content = ''q''\<rparr>]" and mt = 16
          and hdrs = "Some [(''x-user-id'', ''1'')]" and tls = None
          and chunks = "[\<lparr>choices = [\<lparr>choice_text = Some ''hi''\<rparr>], usage = None\<rparr>]"]
        fallback_call [where cl = usage_endpoint and clock = slow_clock and mdl = "''m''"
          and messages = "[\<lparr>role = ''user'', content = ''q''\<rparr>]" and mt = 16
          and hdrs = "Some [(''x-user-id'', ''1'')]" and tls = None
          and chunks = "[\<lparr>choices = [\<lparr>choice_text = Some ''hi''\<rparr>], usage = None\<rparr>,
                    \<lparr>choices = [],
                     usage = Some \<lparr>completion_tokens = 3, CompletionUsage.prompt_tokens = 7\<rparr>\<rparr>]"]
  by (simp add: async_launch_request_def Let_def no_usage_endpoint_def usage_endpoint_def
        slow_clock_def streaming_request_def final_request_def usage_counts_def
        final_counts_def process_chunk_def truthy_def)

text \<open>
  C4 claims that the second call repeats the parameters of the first but for
  \<open>stream\<close>, and that it is made exactly when the stream has no usage counters. The
  first call below carries a temperature and the user's header, the second neither; and a
  usage block that counts zero completion tokens triggers the second call too.
\<close>

theorem fallback_call_counterexample:
  "fst (async_launch_request no_usage_endpoint slow_clock ''m''
          [\<lparr>role = ''user'', content = ''q''\<rparr>] 16 None (Some [(''x-user-id'', ''1'')])) =
     [\<lparr>CompletionRequest.model = ''m'', prompt = ''user: q'' @ [CHR 0x0A], stream = True,
       max_tokens = 16, temperature = Some 0,
       extra_headers = Some [(''x-user-id'', ''1'')],
       stream_options = Some [(''include_usage'', True)]\<rparr>,
      \<lparr>CompletionRequest.model = ''m'', prompt = ''user: q'' @ [CHR 0x0A], stream = False,
       max_tokens = 16, temperature = None, extra_headers = None, stream_options = None\<rparr>] \<and>
   length (fst (async_launch_request zero_count_endpoint slow_clock ''m''
          [\<lparr>role = ''user'', content = ''q''\<rparr>] 16 None (Some [(''x-user-id'', ''1'')]))) = 2"
  by (simp add: async_launch_request_def Let_def no_usage_endpoint_def zero_count_endpoint_def
        streaming_request_def final_request_def usage_counts_def final_counts_def)

section \<open>Properties of ProcessSummary\<close>

lemma col_min_Min: "col_min xs = (if xs = [] then None else Some (Min (set xs)))"
  by (cases xs) (simp_all add: col_min_def Min.set_eq_fold [symmetric])

lemma col_max_Max: "col_max xs = (if xs = [] then None else Some (Max (set xs)))"
  by (cases xs) (simp_all add: col_max_def Max.set_eq_fold [symmetric])

text \<open>
  C10. The window is applied only when both bounds are true as conditions. When a bound
  is \<^verbatim>\<open>None\<close> or zero, no row is filtered out, by launch time or by finish time: the
  number of launched queries is the number of rows of the frame and the frame is kept as
  it is; a bound that is \<^verbatim>\<open>None\<close> becomes the least launch time, or the greatest finish
  time, of all the rows (a bound that is zero stays zero). The function then goes on with
  these values, unless both bounds are zero, where the quotient by the length of the window
  raises. When both bounds are numbers other than zero, the launched queries are the rows
  launched within the bounds and the frame is cut down to the rows finished within them.
\<close>

theorem process_summary_window:
  "(st = None \<or> st = Some 0 \<or> en = None \<or> en = Some 0 \<longrightarrow>
      select_rows df st en = (length df, df) \<and>
      fill_bounds df st en =
        (case st of
           Some a \<Rightarrow> Some a
         | None \<Rightarrow> if df = [] then None else Some (Min (Row.launch_time ` set df)),
         case en of
           Some b \<Rightarrow> Some b
         | None \<Rightarrow> if df = [] then None else Some (Max (Row.finish_time ` set df))) \<and>
      ProcessSummary df st en =
        (if st = Some 0 \<and> en = Some 0 then Inl ZeroDivisionError
         else Inr \<lparr>launched_queries = length df, frame = df,
                   window_start =
                     (case st of
                        Some a \<Rightarrow> Some a
                      | None \<Rightarrow>
                          if df = [] then None else Some (Min (Row.launch_time ` set df))),
                   window_end =
                     (case en of
                        Some b \<Rightarrow> Some b
                      | None \<Rightarrow>
                          if df = [] then None
                          else Some (Max (Row.finish_time ` set df)))\<rparr>)) \<and>
   (st = Some a \<and> a \<noteq> 0 \<and> en = Some b \<and> b \<noteq> 0 \<longrightarrow>
      select_rows df st en =
        (length (filter (\<lambda>r. a \<le> Row.launch_time r \<and> Row.launch_time r \<le> b) df),
         filter (\<lambda>r. a \<le> Row.finish_time r \<and> Row.finish_time r \<le> b) df) \<and>
      ProcessSummary df st en =
        (if a = b then Inl ZeroDivisionError
         else Inr \<lparr>launched_queries =
                     length (filter (\<lambda>r. a \<le> Row.launch_time r \<and> Row.launch_time r \<le> b) df),
                   frame = filter (\<lambda>r. a \<le> Row.finish_time r \<and> Row.finish_time r \<le> b) df,
                   window_start = Some a, window_end = Some b\<rparr>))"
proof (intro conjI impI)
  assume h: "st = None \<or> st = Some 0 \<or> en = None \<or> en = Some 0"
  then have nt: "\<not> (truthy st \<and> truthy en)"
    by (auto simp add: truthy_def)
  show sel: "select_rows df st en = (length df, df)"
    using nt by (auto simp add: select_rows_def)
  show fill: "fill_bounds df st en =
        (case st of
           Some a \<Rightarrow> Some a
         | None \<Rightarrow> if df = [] then None else Some (Min (Row.launch_time ` set df)),
         case en of
           Some b \<Rightarrow> Some b
         | None \<Rightarrow> if df = [] then None else Some (Max (Row.finish_time ` set df)))"
    by (simp add: fill_bounds_def col_min_Min col_max_Max split: option.splits)
  have zero: "(st \<noteq> None \<and> en \<noteq> None \<and> the en - the st = 0) = (st = Some 0 \<and> en = Some 0)"
    using h by auto
  show "ProcessSummary df st en =
        (if st = Some 0 \<and> en = Some 0 then Inl ZeroDivisionError
         else Inr \<lparr>launched_queries = length df, frame = df,
                   window_start =
                     (case st of
                        Some a \<Rightarrow> Some a
                      | None \<Rightarrow>
                          if df = [] then None else Some (Min (Row.launch_time ` set df))),
                   window_end =
                     (case en of
                        Some b \<Rightarrow> Some b
                      | None \<Rightarrow>
                          if df = [] then None
                          else Some (Max (Row.finish_time ` set df)))\<rparr>)"
    using zero by (simp add: ProcessSummary_def sel fill)
next
  assume h: "st = Some a \<and> a \<noteq> 0 \<and> en = Some b \<and> b \<noteq> 0"
  then show sel: "select_rows df st en =
        (length (filter (\<lambda>r. a \<le> Row.launch_time r \<and> Row.launch_time r \<le> b) df),
         filter (\<lambda>r. a \<le> Row.finish_time r \<and> Row.finish_time r \<le> b) df)"
    by (simp add: select_rows_def truthy_def)
  from h have "fill_bounds (filter (\<lambda>r. a \<le> Row.finish_time r \<and> Row.finish_time r \<le> b) df)
                 st en = (Some a, Some b)"
    by (simp add: fill_bounds_def)
  with h show "ProcessSummary df st en =
        (if a = b then Inl ZeroDivisionError
         else Inr \<lparr>launched_queries =
                     length (filter (\<lambda>r. a \<le> Row.launch_time r \<and> Row.launch_time r \<le> b) df),
                   frame = filter (\<lambda>r. a \<le> Row.finish_time r \<and> Row.finish_time r \<le> b) df,
                   window_start = Some a, window_end = Some b\<rparr>)"
    unfolding ProcessSummary_def sel by auto
qed

theorem process_summary_window_witness:
  "ProcessSummary example_frame (Some 0) (Some 4) =
     Inr \<lparr>launched_queries = 3, frame = example_frame,
          window_start = Some 0, window_end = Some 4\<rparr> \<and>
   ProcessSummary example_frame None None =
     Inr \<lparr>launched_queries = 3, frame = example_frame,
          window_start = Some 1, window_end = Some 9\<rparr> \<and>
   ProcessSummary example_frame (Some 0) (Some 0) = Inl ZeroDivisionError \<and>
   ProcessSummary example_frame (Some 2) (Some 8) =
     Inr \<lparr>launched_queries = 2, frame = [example_frame ! 1, example_frame ! 2],
          window_start = Some 2, window_end = Some 8\<rparr>"
  using process_summary_window [of "Some 0" "Some 4" example_frame 1 1]
        process_summary_window [of None None example_frame 1 1]
        process_summary_window [of "Some 0" "Some 0" example_frame 1 1]
        process_summary_window [of "Some 2" "Some 8" example_frame 2 8]
  by (simp add: example_frame_def)

section \<open>Properties of UserSession\<close>

lemma bind_err_Inr: "bind_err m f = Inr y \<longleftrightarrow> (\<exists>x. m = Inr x \<and> f x = Inr y)"
  by (cases m) simp_all

lemma next_prompt_effect:
  "next_prompt rnd s = Inr (p, s1) \<Longrightarrow>
     s1 = s\<lparr>UserSession.question_id := UserSession.question_id s + 1\<rparr>"
  by (auto simp add: next_prompt_def build_new_question_def bind_err_Inr Let_def
        split: if_splits option.splits)

lemma on_user_query_effect:
  "on_user_query q h = Inr h' \<Longrightarrow> h' = h @ [\<lparr>role = ''user'', content = q\<rparr>]"
  by (simp add: on_user_query_def split: if_splits)

lemma launch_new_request_form:
  assumes "launch_new_request t rnd s ex = Inr (s', ex')"
  shows "\<exists>q pr. s' = s\<lparr>UserSession.question_id := UserSession.question_id s + 1,
                        chat_history := chat_history s @ [\<lparr>role = ''user'', content = q\<rparr>],
                        has_unfinished_request := True, last_request_time := Some t\<rparr>
               \<and> ex' = ex\<lparr>loop := loop ex @ [pr]\<rparr>
               \<and> p_callback pr = OnRequestFinished (UserConfig.user_id (user_config s))
               \<and> p_messages pr = chat_history s @ [\<lparr>role = ''user'', content = q\<rparr>]"
proof -
  from assms obtain p s1 where np: "next_prompt rnd s = Inr (p, s1)"
    and r1: "(let p' = (if length (chat_history s1) = 0 then build_system_prompt s1 @ p else p)
       in bind_err (on_user_query p' (chat_history s1)) (\<lambda>h.
            let s2 = s1\<lparr>chat_history := h\<rparr>
            in bind_err (round_max_tokens s2) (\<lambda>mt.
                 let tls = (case app s2 of Some a \<Rightarrow> Some (tools a) | None \<Rightarrow> None);
                     ex' = launch_request (chat_history s2) mt
                             (OnRequestFinished (UserConfig.user_id (user_config s2))) tls
                             (Some [(''x-user-id'', str_int (UserConfig.user_id (user_config s2)))]) ex
                 in Inr (s2\<lparr>has_unfinished_request := True,
                            last_request_time := Some t\<rparr>, ex')))) = Inr (s', ex')"
    unfolding launch_new_request_def bind_err_Inr by auto
  have s1: "s1 = s\<lparr>UserSession.question_id := UserSession.question_id s + 1\<rparr>"
    using np by (rule next_prompt_effect)
  define q where "q = (if length (chat_history s1) = 0 then build_system_prompt s1 @ p else p)"
  from r1 obtain h where h: "on_user_query q (chat_history s1) = Inr h"
    and r2: "(let s2 = s1\<lparr>chat_history := h\<rparr>
            in bind_err (round_max_tokens s2) (\<lambda>mt.
                 let tls = (case app s2 of Some a \<Rightarrow> Some (tools a) | None \<Rightarrow> None);
                     ex' = launch_request (chat_history s2) mt
                             (OnRequestFinished (UserConfig.user_id (user_config s2))) tls
                             (Some [(''x-user-id'', str_int (UserConfig.user_id (user_config s2)))]) ex
                 in Inr (s2\<lparr>has_unfinished_request := True,
                            last_request_time := Some t\<rparr>, ex'))) = Inr (s', ex')"
    unfolding q_def Let_def bind_err_Inr by auto
  have h': "h = chat_history s @ [\<lparr>role = ''user'', content = q\<rparr>]"
    using on_user_query_effect [OF h] by (simp add: s1)
  from r2 obtain mt where
    r3: "s' = s1\<lparr>chat_history := h, has_unfinished_request := True, last_request_time := Some t\<rparr>"
    and r4: "ex' = launch_request h mt (OnRequestFinished (UserConfig.user_id (user_config s1)))
                    (case app s1 of Some a \<Rightarrow> Some (tools a) | None \<Rightarrow> None)
                    (Some [(''x-user-id'', str_int (UserConfig.user_id (user_config s1)))]) ex"
    unfolding Let_def bind_err_Inr by auto
  show ?thesis
    apply (rule exI [of _ q])
    apply (rule exI [of _ "\<lparr>p_messages = h, p_max_tokens = mt,
             p_tools = (case app s1 of Some a \<Rightarrow> Some (tools a) | None \<Rightarrow> None),
             p_extra_headers = Some [(''x-user-id'', str_int (UserConfig.user_id (user_config s1)))],
             p_callback = OnRequestFinished (UserConfig.user_id (user_config s1))\<rparr>"])
    using r3 r4 by (simp add: s1 h' launch_request_def get_messages_for_openai_def)
qed

lemma launch_new_request_succeeds:
  assumes "\<not> UserSession.use_sharegpt s"
    and "chat_history s = [] \<or> role (last (chat_history s)) = ''assistant''"
  shows "\<exists>s' ex'. launch_new_request t rnd s ex = Inr (s', ex')"
  using assms
  by (auto simp add: launch_new_request_def next_prompt_def build_new_question_def
        on_user_query_def round_max_tokens_def Let_def)

lemma step_done:
  "UserSession.question_id s \<ge> UserConfig.num_rounds (user_config s)
     \<and> \<not> has_unfinished_request s \<Longrightarrow>
   step t r s ex = Inr (s\<lparr>finished := True\<rparr>, ex, [])"
  by (simp add: step_def)

lemma step_first:
  "\<not> (UserSession.question_id s \<ge> UserConfig.num_rounds (user_config s)
        \<and> \<not> has_unfinished_request s) \<Longrightarrow>
   last_request_time s = None \<Longrightarrow>
   step t r s ex =
     bind_err (launch_new_request t r s ex) (\<lambda>(s', ex'). Inr (s', ex', []))"
  by (auto simp add: step_def)

lemma step_busy:
  "last_request_time s = Some l \<Longrightarrow> t - l > gap_between_requests (user_config s) \<Longrightarrow>
   has_unfinished_request s \<Longrightarrow>
   step t r s ex =
     (if t - last_unfinished_log s > 10
      then Inr (s\<lparr>last_unfinished_log := t\<rparr>, ex, [unfinished_warning s])
      else Inr (s, ex, []))"
  by (simp add: step_def)

lemma step_next:
  "UserSession.question_id s < UserConfig.num_rounds (user_config s) \<Longrightarrow>
   last_request_time s = Some l \<Longrightarrow> t - l > gap_between_requests (user_config s) \<Longrightarrow>
   \<not> has_unfinished_request s \<Longrightarrow>
   step t r s ex =
     bind_err (launch_new_request t r s ex) (\<lambda>(s', ex'). Inr (s', ex', []))"
  by (simp add: step_def)

lemma step_wait:
  "\<not> (UserSession.question_id s \<ge> UserConfig.num_rounds (user_config s)
        \<and> \<not> has_unfinished_request s) \<Longrightarrow>
   last_request_time s = Some l \<Longrightarrow> \<not> t - l > gap_between_requests (user_config s) \<Longrightarrow>
   step t r s ex = Inr (s, ex, [])"
  by (auto simp add: step_def)

lemma fired_log:
  assumes "bind_err (launch_new_request t r s ex) (\<lambda>(s', ex'). Inr (s', ex', []))
             = Inr (s', ex', w)"
  shows "w = [] \<and> last_unfinished_log s' = last_unfinished_log s"
proof (cases "launch_new_request t r s ex")
  case (Inl e)
  with assms show ?thesis by simp
next
  case (Inr x)
  obtain a b where x: "x = (a, b)" by (cases x)
  from assms Inr x have eqs: "a = s'" "b = ex'" "w = []" by simp_all
  with Inr x have "launch_new_request t r s ex = Inr (s', ex')" by simp
  from launch_new_request_form [OF this] have "last_unfinished_log s' = last_unfinished_log s"
    by auto
  with eqs show ?thesis by simp
qed

lemma step_log:
  assumes "step t r s ex = Inr (s', ex', w)"
  shows "(w = [] \<and> last_unfinished_log s' = last_unfinished_log s) \<or>
         (w \<noteq> [] \<and> t - last_unfinished_log s > 10 \<and> last_unfinished_log s' = t)"
proof (cases "UserSession.question_id s \<ge> UserConfig.num_rounds (user_config s)
                \<and> \<not> has_unfinished_request s")
  case True
  from assms show ?thesis unfolding step_done [OF True] by auto
next
  case nd: False
  show ?thesis
  proof (cases "last_request_time s")
    case None
    from assms have "w = [] \<and> last_unfinished_log s' = last_unfinished_log s"
      unfolding step_first [OF nd None] by (rule fired_log)
    then show ?thesis by simp
  next
    case (Some l)
    show ?thesis
    proof (cases "t - l > gap_between_requests (user_config s)")
      case gap: True
      show ?thesis
      proof (cases "has_unfinished_request s")
        case True
        from assms show ?thesis unfolding step_busy [OF Some gap True]
          by (auto split: if_splits)
      next
        case nf: False
        with nd have lt: "UserSession.question_id s < UserConfig.num_rounds (user_config s)"
          by simp
        from assms have "w = [] \<and> last_unfinished_log s' = last_unfinished_log s"
          unfolding step_next [OF lt Some gap nf] by (rule fired_log)
        then show ?thesis by simp
      qed
    next
      case False
      from assms show ?thesis unfolding step_wait [OF nd Some False] by auto
    qed
  qed
qed

lemma deliver_log: "last_unfinished_log (deliver cb x s) = last_unfinished_log s"
  by (auto simp add: deliver_def real_callback_def on_request_finished_def update_result_def
        bind_err_def split: finish_callback.splits sum.splits)

lemma warnings_spaced: "spaced 10 (last_unfinished_log s # warning_times evs (s, ex))"
proof (induction evs arbitrary: s ex)
  case Nil
  show ?case by simp
next
  case (Cons ev evs)
  show ?case
  proof (cases ev)
    case (Tick t rnd)
    show ?thesis
    proof (cases "step t (rnd (UserConfig.user_id (user_config s))) s ex")
      case (Inl e)
      with Tick show ?thesis by simp
    next
      case (Inr res)
      obtain s' ex' w where res: "res = (s', ex', w)" by (cases res) 
      from Inr res step_log
      have "(w = [] \<and> last_unfinished_log s' = last_unfinished_log s) \<or>
         (w \<noteq> [] \<and> t - last_unfinished_log s > 10 \<and> last_unfinished_log s' = t)"
        by blast
      with Cons.IH [of s' ex'] Tick Inr res show ?thesis by auto
    qed
  next
    case (Completes i cl clock)
    with Cons.IH [of "deliver (p_callback (loop ex ! i))
                        (snd (run_coroutine cl clock (RequestExecutor.model ex) (loop ex ! i))) s"
                     "without i ex"]
         Cons.IH [of s ex]
    show ?thesis by (simp add: deliver_log Let_def)
  qed
qed

lemma fired_outcome:
  "(\<exists>e. bind_err (launch_new_request t r s ex) (\<lambda>(s', ex'). Inr (s', ex', [])) = Inl e) \<or>
   fires_round t s ex
     (bind_err (launch_new_request t r s ex) (\<lambda>(s', ex'). Inr (s', ex', [])))"
proof (cases "launch_new_request t r s ex")
  case (Inl e)
  then show ?thesis by simp
next
  case (Inr x)
  obtain a b where x: "x = (a, b)" by (cases x)
  from launch_new_request_form [of t r s ex a b] Inr x
  obtain q pr where
    a: "a = s\<lparr>UserSession.question_id := UserSession.question_id s + 1,
              chat_history := chat_history s @ [\<lparr>role = ''user'', content = q\<rparr>],
              has_unfinished_request := True, last_request_time := Some t\<rparr>"
    and b: "b = ex\<lparr>loop := loop ex @ [pr]\<rparr>"
    and cb: "p_callback pr = OnRequestFinished (UserConfig.user_id (user_config s))"
    and ms: "p_messages pr = chat_history s @ [\<lparr>role = ''user'', content = q\<rparr>]"
    by auto
  have "fires_round t s ex (Inr (a, b, []))"
    by (simp add: fires_round_def a b cb ms)
  with Inr x show ?thesis by simp
qed

lemma fired_outcome_good:
  assumes "\<not> UserSession.use_sharegpt s"
    and "chat_history s = [] \<or> role (last (chat_history s)) = ''assistant''"
  shows "fires_round t s ex
     (bind_err (launch_new_request t r s ex) (\<lambda>(s', ex'). Inr (s', ex', [])))"
proof -
  from launch_new_request_succeeds [OF assms, of t r ex]
  obtain s' ex' where "launch_new_request t r s ex = Inr (s', ex')" by blast
  with fired_outcome [of t r s ex] show ?thesis by simp
qed

lemma fired_cases:
  "if \<not> UserSession.use_sharegpt s
      \<and> (chat_history s = [] \<or> role (last (chat_history s)) = ''assistant'')
   then fires_round t s ex
          (bind_err (launch_new_request t r s ex) (\<lambda>(s', ex'). Inr (s', ex', [])))
   else (\<exists>e. bind_err (launch_new_request t r s ex) (\<lambda>(s', ex'). Inr (s', ex', [])) = Inl e)
        \<or> fires_round t s ex
             (bind_err (launch_new_request t r s ex) (\<lambda>(s', ex'). Inr (s', ex', [])))"
proof (cases "\<not> UserSession.use_sharegpt s
      \<and> (chat_history s = [] \<or> role (last (chat_history s)) = ''assistant'')")
  case True
  then have "fires_round t s ex
          (bind_err (launch_new_request t r s ex) (\<lambda>(s', ex'). Inr (s', ex', [])))"
    using fired_outcome_good [of s t ex r] by blast
  then show ?thesis by (subst if_P [OF True])
next
  case False
  show ?thesis by (subst if_not_P [OF False]) (rule fired_outcome)
qed

text \<open>
  C1. \<^verbatim>\<open>step\<close> at time \<open>t\<close>: (1) when the round counter has reached the number of
  rounds and no request is unfinished, the session is marked as finished and nothing else
  changes; (2) else, when no request was ever sent, a round is fired; (3) else, when more
  than the gap between requests has passed since the last request: with a request
  unfinished nothing is fired, and the warning is logged, and its time recorded, only when
  more than ten seconds have passed since the time recorded last; without one a round is
  fired; (4) else nothing changes. Firing a round is what \<open>fires_round\<close> says, the time
  of the last request becoming \<open>t\<close>; it happens whenever the session is not replaying
  a ShareGPT conversation and its history is empty or ends with an assistant turn, and
  otherwise it happens or the step raises. Along any sequence of ticks and completions,
  each warning comes more than ten seconds after the one before it.
\<close>

theorem step_transition_rule:
  "(UserSession.question_id s \<ge> UserConfig.num_rounds (user_config s)
      \<and> \<not> has_unfinished_request s \<longrightarrow>
      step t rnd s ex = Inr (s\<lparr>finished := True\<rparr>, ex, [])) \<and>
   (\<not> (UserSession.question_id s \<ge> UserConfig.num_rounds (user_config s)
         \<and> \<not> has_unfinished_request s)
      \<and> last_request_time s = None \<longrightarrow>
      (if \<not> UserSession.use_sharegpt s
          \<and> (chat_history s = [] \<or> role (last (chat_history s)) = ''assistant'')
       then fires_round t s ex (step t rnd s ex)
       else (\<exists>e. step t rnd s ex = Inl e) \<or> fires_round t s ex (step t rnd s ex))) \<and>
   (last_request_time s = Some l \<and> t - l > gap_between_requests (user_config s)
      \<and> has_unfinished_request s \<longrightarrow>
      step t rnd s ex =
        (if t - last_unfinished_log s > 10
         then Inr (s\<lparr>last_unfinished_log := t\<rparr>, ex, [unfinished_warning s])
         else Inr (s, ex, []))) \<and>
   (UserSession.question_id s < UserConfig.num_rounds (user_config s)
      \<and> last_request_time s = Some l \<and> t - l > gap_between_requests (user_config s)
      \<and> \<not> has_unfinished_request s \<longrightarrow>
      (if \<not> UserSession.use_sharegpt s
          \<and> (chat_history s = [] \<or> role (last (chat_history s)) = ''assistant'')
       then fires_round t s ex (step t rnd s ex)
       else (\<exists>e. step t rnd s ex = Inl e) \<or> fires_round t s ex (step t rnd s ex))) \<and>
   (\<not> (UserSession.question_id s \<ge> UserConfig.num_rounds (user_config s)
         \<and> \<not> has_unfinished_request s)
      \<and> last_request_time s = Some l \<and> \<not> t - l > gap_between_requests (user_config s) \<longrightarrow>
      step t rnd s ex = Inr (s, ex, [])) \<and>
   spaced 10 (last_unfinished_log s # warning_times evs (s, ex))"
proof (intro conjI impI)
  assume "UserSession.question_id s \<ge> UserConfig.num_rounds (user_config s)
      \<and> \<not> has_unfinished_request s"
  then show "step t rnd s ex = Inr (s\<lparr>finished := True\<rparr>, ex, [])"
    by (rule step_done)
next
  assume h: "\<not> (UserSession.question_id s \<ge> UserConfig.num_rounds (user_config s)
         \<and> \<not> has_unfinished_request s)
      \<and> last_request_time s = None"
  then have eq: "step t rnd s ex =
     bind_err (launch_new_request t rnd s ex) (\<lambda>(s', ex'). Inr (s', ex', []))"
    using step_first [of s t rnd ex] by blast
  show "if \<not> UserSession.use_sharegpt s
          \<and> (chat_history s = [] \<or> role (last (chat_history s)) = ''assistant'')
       then fires_round t s ex (step t rnd s ex)
       else (\<exists>e. step t rnd s ex = Inl e) \<or> fires_round t s ex (step t rnd s ex)"
    unfolding eq by (rule fired_cases)
next
  assume "last_request_time s = Some l \<and> t - l > gap_between_requests (user_config s)
      \<and> has_unfinished_request s"
  then show "step t rnd s ex =
        (if t - last_unfinished_log s > 10
         then Inr (s\<lparr>last_unfinished_log := t\<rparr>, ex, [unfinished_warning s])
         else Inr (s, ex, []))"
    using step_busy [of s l t rnd ex] by blast
next
  assume h: "UserSession.question_id s < UserConfig.num_rounds (user_config s)
      \<and> last_request_time s = Some l \<and> t - l > gap_between_requests (user_config s)
      \<and> \<not> has_unfinished_request s"
  then have eq: "step t rnd s ex =
     bind_err (launch_new_request t rnd s ex) (\<lambda>(s', ex'). Inr (s', ex', []))"
    using step_next [of s l t rnd ex] by blast
  show "if \<not> UserSession.use_sharegpt s
          \<and> (chat_history s = [] \<or> role (last (chat_history s)) = ''assistant'')
       then fires_round t s ex (step t rnd s ex)
       else (\<exists>e. step t rnd s ex = Inl e) \<or> fires_round t s ex (step t rnd s ex)"
    unfolding eq by (rule fired_cases)
next
  assume "\<not> (UserSession.question_id s \<ge> UserConfig.num_rounds (user_config s)
         \<and> \<not> has_unfinished_request s)
      \<and> last_request_time s = Some l \<and> \<not> t - l > gap_between_requests (user_config s)"
  then show "step t rnd s ex = Inr (s, ex, [])"
    using step_wait [of s l t rnd ex] by blast
next
  show "spaced 10 (last_unfinished_log s # warning_times evs (s, ex))"
    by (rule warnings_spaced)
qed

theorem step_transition_rule_witness:
  "step 103 ''r'' (idle_session\<lparr>UserSession.question_id := 2\<rparr>) idle_executor =
     Inr (idle_session\<lparr>UserSession.question_id := 2, finished := True\<rparr>, idle_executor, []) \<and>
   fires_round 100 example_session idle_executor
     (step 100 ''r'' example_session idle_executor) \<and>
   map_sum id (\<lambda>(s', ex', w). (last_request_time s', UserSession.question_id s',
                                  has_unfinished_request s', length (chat_history s'),
                                  length (loop ex'), w))
     (step 100 ''r'' example_session idle_executor) = Inr (Some 100, 1, True, 1, 1, []) \<and>
   step 103 ''r'' busy_session idle_executor =
     Inr (busy_session\<lparr>last_unfinished_log := 103\<rparr>, idle_executor,
          [unfinished_warning busy_session]) \<and>
   step 103 ''r'' (busy_session\<lparr>last_unfinished_log := 100\<rparr>) idle_executor =
     Inr (busy_session\<lparr>last_unfinished_log := 100\<rparr>, idle_executor, []) \<and>
   fires_round 103 idle_session idle_executor
     (step 103 ''r'' idle_session idle_executor) \<and>
   map_sum id (\<lambda>(s', ex', w). (last_request_time s', UserSession.question_id s',
                                  has_unfinished_request s', length (chat_history s'),
                                  length (loop ex'), w))
     (step 103 ''r'' idle_session idle_executor) = Inr (Some 103, 2, True, 3, 1, []) \<and>
   step 101 ''r'' idle_session idle_executor = Inr (idle_session, idle_executor, []) \<and>
   warning_times [Tick 103 (\<lambda>u. ''r''), Tick 110 (\<lambda>u. ''r''), Tick 114 (\<lambda>u. ''r'')]
     (busy_session, idle_executor) = [103, 114] \<and>
   spaced 10 [0, 103, 114] \<and> \<not> spaced 10 [0, 103, 110]"
  using step_transition_rule [where s = "idle_session\<lparr>UserSession.question_id := 2\<rparr>"
          and t = 103 and rnd = "''r''" and ex = idle_executor and l = 100 and evs = "[]"]
        step_transition_rule [where s = example_session
          and t = 100 and rnd = "''r''" and ex = idle_executor and l = 100 and evs = "[]"]
        step_transition_rule [where s = busy_session
          and t = 103 and rnd = "''r''" and ex = idle_executor and l = 100
          and evs = "[Tick 103 (\<lambda>u. ''r''), Tick 110 (\<lambda>u. ''r''), Tick 114 (\<lambda>u. ''r'')]"]
        step_transition_rule [where s = "busy_session\<lparr>last_unfinished_log := 100\<rparr>"
          and t = 103 and rnd = "''r''" and ex = idle_executor and l = 100 and evs = "[]"]
        step_transition_rule [where s = idle_session
          and t = 103 and rnd = "''r''" and ex = idle_executor and l = 100 and evs = "[]"]
        step_transition_rule [where s = idle_session
          and t = 101 and rnd = "''r''" and ex = idle_executor and l = 100 and evs = "[]"]
  by (simp add: step_def launch_new_request_def next_prompt_def build_new_question_def
        get_all_rag_docs_def build_system_prompt_def on_user_query_def round_max_tokens_def
        launch_request_def get_messages_for_openai_def fires_round_def
        example_session_def busy_session_def idle_session_def idle_executor_def Let_def)

section \<open>Properties of the UserSessionManager\<close>










section \<open>A session and its requests in flight\<close>

lemma filter_without:
  assumes "i < length xs"
  shows "filter P (take i xs @ drop (Suc i) xs) =
           (if P (xs ! i) then filter P (take i xs) @ filter P (drop (Suc i) xs) else filter P xs)"
    and "length (filter P xs) =
           length (filter P (take i xs @ drop (Suc i) xs)) + (if P (xs ! i) then 1 else 0)"
proof -
  have xs: "xs = take i xs @ xs ! i # drop (Suc i) xs"
    using assms by (rule id_take_nth_drop)
  have f: "filter P xs = filter P (take i xs) @ filter P (xs ! i # drop (Suc i) xs)"
    by (subst xs) (simp only: filter_append)
  show "filter P (take i xs @ drop (Suc i) xs) =
           (if P (xs ! i) then filter P (take i xs) @ filter P (drop (Suc i) xs) else filter P xs)"
    using f by simp
  show "length (filter P xs) =
           length (filter P (take i xs @ drop (Suc i) xs)) + (if P (xs ! i) then 1 else 0)"
    using f by simp
qed

lemma deliver_keeps:
  "user_config (deliver cb x s) = user_config s"
  "last_request_time (deliver cb x s) = last_request_time s"
  "has_unfinished_request (deliver cb x s) \<Longrightarrow> has_unfinished_request s"
  "cb \<noteq> OnRequestFinished (UserConfig.user_id (user_config s)) \<Longrightarrow> deliver cb x s = s"
  by (auto simp add: deliver_def real_callback_def on_request_finished_def update_result_def
        bind_err_def split: finish_callback.splits sum.splits if_splits)

lemma in_flight_config:
  "user_config s' = user_config s \<Longrightarrow> in_flight s' ex = in_flight s ex"
  by (simp add: in_flight_def)

lemma fired_one:
  assumes "bind_err (launch_new_request t r s ex) (\<lambda>(s', ex'). Inr (s', ex', []))
             = Inr (s', ex', w)"
    and "one_at_most s ex" and "\<not> has_unfinished_request s"
  shows "one_at_most s' ex'"
proof (cases "launch_new_request t r s ex")
  case (Inl e)
  with assms(1) show ?thesis by simp
next
  case (Inr x)
  obtain a b where x: "x = (a, b)" by (cases x)
  from assms(1) Inr x have eqs: "a = s'" "b = ex'" by simp_all
  with Inr x have "launch_new_request t r s ex = Inr (s', ex')" by simp
  from launch_new_request_form [OF this]
  obtain q pr where
    s': "s' = s\<lparr>UserSession.question_id := UserSession.question_id s + 1,
              chat_history := chat_history s @ [\<lparr>role = ''user'', content = q\<rparr>],
              has_unfinished_request := True, last_request_time := Some t\<rparr>"
    and ex': "ex' = ex\<lparr>loop := loop ex @ [pr]\<rparr>"
    and cb: "p_callback pr = OnRequestFinished (UserConfig.user_id (user_config s))"
    by auto
  from assms(2,3) have "in_flight s ex = []"
    by (auto simp add: one_at_most_def)
  then show ?thesis
    by (simp add: one_at_most_def in_flight_def s' ex' cb)
qed

lemma step_one:
  assumes "step t r s ex = Inr (s', ex', w)" and "one_at_most s ex"
  shows "one_at_most s' ex'"
proof (cases "UserSession.question_id s \<ge> UserConfig.num_rounds (user_config s)
                \<and> \<not> has_unfinished_request s")
  case True
  from assms show ?thesis unfolding step_done [OF True]
    by (auto simp add: one_at_most_def in_flight_def)
next
  case nd: False
  show ?thesis
  proof (cases "last_request_time s")
    case None
    with assms(2) have nf: "\<not> has_unfinished_request s"
      by (auto simp add: one_at_most_def)
    from assms(1) have "bind_err (launch_new_request t r s ex) (\<lambda>(s', ex'). Inr (s', ex', []))
             = Inr (s', ex', w)"
      unfolding step_first [OF nd None] .
    then show ?thesis using assms(2) nf by (rule fired_one)
  next
    case (Some l)
    show ?thesis
    proof (cases "t - l > gap_between_requests (user_config s)")
      case gap: True
      show ?thesis
      proof (cases "has_unfinished_request s")
        case True
        from assms show ?thesis unfolding step_busy [OF Some gap True]
          by (auto simp add: one_at_most_def in_flight_def split: if_splits)
      next
        case nf: False
        with nd have lt: "UserSession.question_id s < UserConfig.num_rounds (user_config s)"
          by simp
        from assms(1) have "bind_err (launch_new_request t r s ex)
             (\<lambda>(s', ex'). Inr (s', ex', [])) = Inr (s', ex', w)"
          unfolding step_next [OF lt Some gap nf] .
        then show ?thesis using assms(2) nf by (rule fired_one)
      qed
    next
      case False
      from assms show ?thesis unfolding step_wait [OF nd Some False] by auto
    qed
  qed
qed

lemma step_busy_keeps_loop:
  assumes "has_unfinished_request s" and "one_at_most s ex"
  shows "\<exists>s' w. step t r s ex = Inr (s', ex, w)"
proof -
  from assms obtain l where l: "last_request_time s = Some l"
    by (auto simp add: one_at_most_def)
  have nd: "\<not> (UserSession.question_id s \<ge> UserConfig.num_rounds (user_config s)
                \<and> \<not> has_unfinished_request s)"
    using assms(1) by simp
  show ?thesis
  proof (cases "t - l > gap_between_requests (user_config s)")
    case True
    show ?thesis unfolding step_busy [OF l True assms(1)] by simp
  next
    case False
    show ?thesis unfolding step_wait [OF nd l False] by simp
  qed
qed

lemma completes_one:
  assumes "session_event (Completes i cl clock) (s, ex) = Inr (s', ex')"
    and "one_at_most s ex"
  shows "one_at_most s' ex'"
proof (cases "i < length (loop ex)")
  case False
  with assms show ?thesis by simp
next
  case True
  define p where "p = loop ex ! i"
  define x where "x = snd (run_coroutine cl clock (RequestExecutor.model ex) p)"
  from assms(1) True have s': "s' = deliver (p_callback p) x s" and ex': "ex' = without i ex"
    by (simp_all add: p_def x_def Let_def)
  have cfg: "in_flight s' ex' = in_flight s ex'"
    unfolding s' by (rule in_flight_config) (rule deliver_keeps(1))
  let ?P = "\<lambda>p. p_callback p = OnRequestFinished (UserConfig.user_id (user_config s))"
  have len: "length (in_flight s ex) =
               length (in_flight s ex') + (if ?P p then 1 else 0)"
    unfolding in_flight_def ex' without_def p_def
    using filter_without(2) [OF True, of ?P] by simp
  show ?thesis
  proof (cases "?P p")
    case yes: True
    with len assms(2) have "in_flight s ex' = []"
      by (simp add: one_at_most_def)
    with cfg have "in_flight s' ex' = []" by simp
    moreover have "has_unfinished_request s' \<longrightarrow> last_request_time s' \<noteq> None"
      using assms(2) deliver_keeps(2,3) [of "p_callback p" x s]
      by (auto simp add: one_at_most_def s')
    ultimately show ?thesis by (simp add: one_at_most_def)
  next
    case no: False
    then have same: "s' = s"
      unfolding s' by (intro deliver_keeps(4)) simp
    from no len have "length (in_flight s ex') = length (in_flight s ex)" by simp
    moreover have "in_flight s ex' \<noteq> [] \<longrightarrow> in_flight s ex \<noteq> []"
      using calculation by auto
    ultimately show ?thesis
      using assms(2) by (simp add: one_at_most_def same)
  qed
qed

lemma run_one:
  "one_at_most s0 ex0 \<Longrightarrow> session_run evs (s0, ex0) = Inr (s, ex) \<Longrightarrow> one_at_most s ex"
proof (induction evs arbitrary: s0 ex0)
  case Nil
  then show ?case by simp
next
  case (Cons ev evs)
  from Cons.prems(2) obtain s1 ex1 where
    ev: "session_event ev (s0, ex0) = Inr (s1, ex1)"
    and rest: "session_run evs (s1, ex1) = Inr (s, ex)"
    by (auto simp add: bind_err_Inr)
  have "one_at_most s1 ex1"
  proof (cases ev)
    case (Tick t rnd)
    with ev obtain w where
      "step t (rnd (UserConfig.user_id (user_config s0))) s0 ex0 = Inr (s1, ex1, w)"
      by (auto simp add: bind_err_Inr)
    then show ?thesis using Cons.prems(1) by (rule step_one)
  next
    case (Completes i cl clock)
    with ev Cons.prems(1) show ?thesis by (auto intro: completes_one)
  qed
  then show ?case using rest by (rule Cons.IH)
qed

text \<open>
  C2. A session starts with no request unfinished and none in flight. After any sequence
  of ticks and of completions of coroutines of the loop, in any order, at most one request
  of the session is in flight; when one is, the session has its request marked as
  unfinished; and a step of a session with a request marked as unfinished leaves the
  executor as it is, whatever the time: it launches nothing.
\<close>

theorem one_request_in_flight:
  assumes "\<not> has_unfinished_request s0" and "in_flight s0 ex0 = []"
    and "session_run evs (s0, ex0) = Inr (s, ex)"
  shows "length (in_flight s ex) \<le> 1
         \<and> (in_flight s ex \<noteq> [] \<longrightarrow> has_unfinished_request s)
         \<and> (has_unfinished_request s \<longrightarrow> (\<exists>s' w. step t r s ex = Inr (s', ex, w)))"
proof -
  have "one_at_most s0 ex0"
    using assms(1,2) by (simp add: one_at_most_def)
  then have inv: "one_at_most s ex"
    using assms(3) by (rule run_one)
  then have "length (in_flight s ex) \<le> 1"
    and "in_flight s ex \<noteq> [] \<longrightarrow> has_unfinished_request s"
    by (simp_all add: one_at_most_def)
  moreover have "has_unfinished_request s \<longrightarrow> (\<exists>s' w. step t r s ex = Inr (s', ex, w))"
    using inv step_busy_keeps_loop [of s ex t r] by blast
  ultimately show ?thesis by blast
qed

theorem one_request_in_flight_witness:
  "map_sum id (\<lambda>(s, ex). (length (in_flight s ex), has_unfinished_request s,
                            UserSession.question_id s, length (chat_history s)))
     (session_run [Tick 100 (\<lambda>u. ''r''), Tick 103 (\<lambda>u. ''r'')]
        (example_session, idle_executor)) = Inr (1, True, 1, 1) \<and>
   map_sum id (\<lambda>(s, ex). (length (in_flight s ex), has_unfinished_request s,
                            UserSession.question_id s, length (chat_history s)))
     (session_run [Tick 100 (\<lambda>u. ''r''), Completes 0 usage_endpoint slow_clock]
        (example_session, idle_executor)) = Inr (0, False, 1, 2) \<and>
   map_sum id (\<lambda>(s, ex). (length (in_flight s ex), has_unfinished_request s,
                            UserSession.question_id s, length (chat_history s)))
     (session_run [Tick 100 (\<lambda>u. ''r''), Completes 0 usage_endpoint slow_clock,
                   Tick 103 (\<lambda>u. ''r'')]
        (example_session, idle_executor)) = Inr (1, True, 2, 3) \<and>
   (\<exists>s' w. step 106 ''r''
      (fst (projr (session_run [Tick 100 (\<lambda>u. ''r''), Tick 103 (\<lambda>u. ''r'')]
                     (example_session, idle_executor))))
      (snd (projr (session_run [Tick 100 (\<lambda>u. ''r''), Tick 103 (\<lambda>u. ''r'')]
                     (example_session, idle_executor)))) =
      Inr (s', snd (projr (session_run [Tick 100 (\<lambda>u. ''r''), Tick 103 (\<lambda>u. ''r'')]
                     (example_session, idle_executor))), w))"
  using one_request_in_flight [where ?s0.0 = example_session and ?ex0.0 = idle_executor
          and evs = "[Tick 100 (\<lambda>u. ''r''), Tick 103 (\<lambda>u. ''r'')]"
          and s = "fst (projr (session_run [Tick 100 (\<lambda>u. ''r''), Tick 103 (\<lambda>u. ''r'')]
                     (example_session, idle_executor)))"
          and ex = "snd (projr (session_run [Tick 100 (\<lambda>u. ''r''), Tick 103 (\<lambda>u. ''r'')]
                     (example_session, idle_executor)))"
          and t = 106 and r = "''r''"]
  by (simp add: step_def launch_new_request_def next_prompt_def build_new_question_def
        get_all_rag_docs_def build_system_prompt_def on_user_query_def round_max_tokens_def
        launch_request_def get_messages_for_openai_def in_flight_def
        example_session_def idle_executor_def Let_def
        deliver_def real_callback_def on_request_finished_def on_system_response_def
        update_result_def without_def run_coroutine_def async_launch_request_def
        usage_endpoint_def slow_clock_def usage_counts_def process_chunk_def truthy_def
        streaming_request_def)

section \<open>A request that fails\<close>







section \<open>Admission of sessions\<close>

lemma create_user_session_fields:
  assumes "create_user_session m = Inr (s, m')"
  shows "UserSessionManager.user_id m' = UserSessionManager.user_id m + 1"
    and "gap_between_users m' = gap_between_users m"
    and "last_user_join m' = last_user_join m"
    and "workload_config m' = workload_config m"
    and "need_ramp_up m' = need_ramp_up m"
    and "length (sessions m') = length (sessions m) + 1"
proof -
  from assms have "\<exists>b u. m' = m\<lparr>UserSessionManager.user_id := UserSessionManager.user_id m + 1,
                  apps_manager := b, sessions := sessions m @ [u]\<rparr>"
    by (auto simp add: create_user_session_def Let_def bind_err_Inr
          split: prod.splits if_splits)
  then obtain b u where
    m': "m' = m\<lparr>UserSessionManager.user_id := UserSessionManager.user_id m + 1,
                  apps_manager := b, sessions := sessions m @ [u]\<rparr>"
    by blast
  show "UserSessionManager.user_id m' = UserSessionManager.user_id m + 1"
    and "gap_between_users m' = gap_between_users m"
    and "last_user_join m' = last_user_join m"
    and "workload_config m' = workload_config m"
    and "need_ramp_up m' = need_ramp_up m"
    and "length (sessions m') = length (sessions m) + 1"
    by (simp_all add: m')
qed

lemma remove_finished_sessions_fields:
  assumes "remove_finished_sessions m = Inr m'"
  shows "UserSessionManager.user_id m' = UserSessionManager.user_id m"
    and "gap_between_users m' = gap_between_users m"
    and "last_user_join m' = last_user_join m"
    and "workload_config m' = workload_config m"
    and "need_ramp_up m' = need_ramp_up m"
proof -
  from assms have "\<exists>ss. m' = m\<lparr>session_summaries := ss,
                 sessions := filter (\<lambda>s. \<not> finished s) (sessions m)\<rparr>"
    by (auto simp add: remove_finished_sessions_def Let_def bind_err_Inr)
  then obtain ss where
    m': "m' = m\<lparr>session_summaries := ss,
                 sessions := filter (\<lambda>s. \<not> finished s) (sessions m)\<rparr>"
    by blast
  show "UserSessionManager.user_id m' = UserSessionManager.user_id m"
    and "gap_between_users m' = gap_between_users m"
    and "last_user_join m' = last_user_join m"
    and "workload_config m' = workload_config m"
    and "need_ramp_up m' = need_ramp_up m"
    by (simp_all add: m')
qed

lemma admit_fields:
  assumes "admit t m = Inr m'"
  shows "gap_between_users m' = gap_between_users m"
    and "workload_config m' = workload_config m"
    and "need_ramp_up m' = need_ramp_up m"
    and "if num_users (workload_config m) > int (length (sessions m))
            \<and> t - last_user_join m > gap_between_users m
         then UserSessionManager.user_id m' = UserSessionManager.user_id m + 1
              \<and> last_user_join m' = t
         else UserSessionManager.user_id m' = UserSessionManager.user_id m
              \<and> last_user_join m' = last_user_join m"
proof -
  have "gap_between_users m' = gap_between_users m
      \<and> workload_config m' = workload_config m
      \<and> need_ramp_up m' = need_ramp_up m
      \<and> (if num_users (workload_config m) > int (length (sessions m))
            \<and> t - last_user_join m > gap_between_users m
         then UserSessionManager.user_id m' = UserSessionManager.user_id m + 1
              \<and> last_user_join m' = t
         else UserSessionManager.user_id m' = UserSessionManager.user_id m
              \<and> last_user_join m' = last_user_join m)"
  proof (cases "admits t m")
    case False
    with assms have "m' = m" by (simp add: admit_def)
    with False show ?thesis by (simp add: admits_def)
  next
    case True
    with assms have "\<exists>s m1. create_user_session m = Inr (s, m1)
                      \<and> m' = m1\<lparr>last_user_join := t\<rparr>"
      by (auto simp add: admit_def bind_err_Inr split: prod.splits)
    then obtain s m1 where c: "create_user_session m = Inr (s, m1)"
      and m': "m' = m1\<lparr>last_user_join := t\<rparr>"
      by blast
    from create_user_session_fields [OF c] True show ?thesis
      by (simp add: m' admits_def)
  qed
  then show "gap_between_users m' = gap_between_users m"
    and "workload_config m' = workload_config m"
    and "need_ramp_up m' = need_ramp_up m"
    and "if num_users (workload_config m) > int (length (sessions m))
            \<and> t - last_user_join m > gap_between_users m
         then UserSessionManager.user_id m' = UserSessionManager.user_id m + 1
              \<and> last_user_join m' = t
         else UserSessionManager.user_id m' = UserSessionManager.user_id m
              \<and> last_user_join m' = last_user_join m"
    by simp_all
qed

lemma manager_step_after:
  assumes "UserSessionManager_step t rnd m ex = Inr (m', ex', ws)" and "\<not> need_ramp_up m"
  shows "gap_between_users m' = gap_between_users m"
    and "workload_config m' = workload_config m"
    and "\<not> need_ramp_up m'"
    and "if num_users (workload_config m) > int (length (sessions m))
            \<and> t - last_user_join m > gap_between_users m
         then UserSessionManager.user_id m' = UserSessionManager.user_id m + 1
              \<and> last_user_join m' = t
         else UserSessionManager.user_id m' = UserSessionManager.user_id m
              \<and> last_user_join m' = last_user_join m"
proof -
  define m2 where "m2 = (if UserSessionManager.start_time m = None
                         then m\<lparr>UserSessionManager.start_time := Some t\<rparr> else m)"
  from assms have "\<exists>m3 ss. admit t m2 = Inr m3
      \<and> remove_finished_sessions (m3\<lparr>sessions := ss\<rparr>) = Inr m'"
    by (auto simp add: UserSessionManager_step_def Let_def bind_err_Inr m2_def
          split: prod.splits)
  then obtain m3 ss where a: "admit t m2 = Inr m3"
    and r: "remove_finished_sessions (m3\<lparr>sessions := ss\<rparr>) = Inr m'"
    by blast
  have m2: "gap_between_users m2 = gap_between_users m" "workload_config m2 = workload_config m"
    "need_ramp_up m2 = need_ramp_up m" "sessions m2 = sessions m"
    "last_user_join m2 = last_user_join m"
    "UserSessionManager.user_id m2 = UserSessionManager.user_id m"
    by (simp_all add: m2_def)
  note af = admit_fields [OF a]
  note rf = remove_finished_sessions_fields [OF r]
  show "gap_between_users m' = gap_between_users m"
    using af(1) rf(2) m2 by simp
  show "workload_config m' = workload_config m"
    using af(2) rf(4) m2 by simp
  show "\<not> need_ramp_up m'"
    using af(3) rf(5) m2 assms(2) by simp
  show "if num_users (workload_config m) > int (length (sessions m))
            \<and> t - last_user_join m > gap_between_users m
         then UserSessionManager.user_id m' = UserSessionManager.user_id m + 1
              \<and> last_user_join m' = t
         else UserSessionManager.user_id m' = UserSessionManager.user_id m
              \<and> last_user_join m' = last_user_join m"
    using af(4) rf(1,3) m2 by (simp split: if_splits)
qed

lemma ramp_up_loop_fields:
  "ramp_up_loop t rut js m = Inr m' \<Longrightarrow>
     UserSessionManager.user_id m' \<le> UserSessionManager.user_id m + int (length js)
     \<and> gap_between_users m' = gap_between_users m
     \<and> workload_config m' = workload_config m
     \<and> last_user_join m' = (if js = [] then last_user_join m else t)"
proof (induction js arbitrary: m)
  case Nil
  then show ?case by simp
next
  case (Cons j js)
  from Cons.prems obtain s m1 where c: "create_user_session m = Inr (s, m1)"
    by (auto split: sum.splits)
  note cf = create_user_session_fields [OF c]
  show ?case
  proof (cases "rut - real j * gap_between_users m1 < 0")
    case True
    with Cons.prems c have "m' = m1\<lparr>last_user_join := t\<rparr>"
      by (simp add: Let_def)
    with cf show ?thesis by simp
  next
    case False
    with Cons.prems c obtain s' where
      run: "ramp_up_loop t rut js
              (m1\<lparr>last_user_join := t, sessions := butlast (sessions m1) @ [s']\<rparr>) = Inr m'"
      by (auto simp add: Let_def split: sum.splits)
    from Cons.IH [OF run] cf show ?thesis by simp
  qed
qed

lemma manager_first_step:
  assumes "UserSessionManager_step t rnd m ex = Inr (m', ex', ws)" and "need_ramp_up m"
    and "0 < num_users (workload_config m)" and "0 < gap_between_users m"
  shows "gap_between_users m' = gap_between_users m"
    and "workload_config m' = workload_config m"
    and "\<not> need_ramp_up m'"
    and "UserSessionManager.user_id m'
           \<le> UserSessionManager.user_id m + num_users (workload_config m)"
    and "last_user_join m' = t"
proof -
  from assms(1,2) obtain m0 where
    l: "ramp_up_loop t (ramp_up_time m) [0..<nat (num_users (workload_config m))] m = Inr m0"
    by (auto simp add: UserSessionManager_step_def ramp_up_def bind_err_Inr)
  define m1 where "m1 = m0\<lparr>need_ramp_up := False\<rparr>"
  define m2 where "m2 = (if UserSessionManager.start_time m1 = None
                  then m1\<lparr>UserSessionManager.start_time := Some t\<rparr> else m1)"
  from assms(1,2) l have "bind_err (admit t m2) (\<lambda>m3.
            bind_err (step_sessions t rnd (sessions m3) ex) (\<lambda>(ss, ex', ws).
              bind_err (remove_finished_sessions (m3\<lparr>sessions := ss\<rparr>)) (\<lambda>m4.
                Inr (m4, ex', ws)))) = Inr (m', ex', ws)"
    by (auto simp add: UserSessionManager_step_def ramp_up_def Let_def m2_def m1_def
          split: if_splits)
  then have "\<exists>m3 ss. admit t m2 = Inr m3
      \<and> remove_finished_sessions (m3\<lparr>sessions := ss\<rparr>) = Inr m'"
    by (auto simp add: bind_err_Inr split: prod.splits)
  then obtain m3 ss where a': "admit t m2 = Inr m3"
    and r: "remove_finished_sessions (m3\<lparr>sessions := ss\<rparr>) = Inr m'"
    by blast
  from ramp_up_loop_fields [OF l] assms(3)
  have l1: "UserSessionManager.user_id m0
              \<le> UserSessionManager.user_id m + num_users (workload_config m)"
    and l2: "gap_between_users m0 = gap_between_users m"
    and l3: "workload_config m0 = workload_config m"
    and l4: "last_user_join m0 = t"
    by simp_all
  have m2: "gap_between_users m2 = gap_between_users m" "workload_config m2 = workload_config m"
    "\<not> need_ramp_up m2" "last_user_join m2 = t"
    "UserSessionManager.user_id m2 = UserSessionManager.user_id m0"
    using l2 l3 l4 by (simp_all add: m2_def m1_def)
  note af = admit_fields [OF a']
  note rf = remove_finished_sessions_fields [OF r]
  have na: "\<not> (num_users (workload_config m2) > int (length (sessions m2))
            \<and> t - last_user_join m2 > gap_between_users m2)"
    using m2 assms(4) by simp
  show "gap_between_users m' = gap_between_users m"
    using af(1) rf(2) m2 by simp
  show "workload_config m' = workload_config m"
    using af(2) rf(4) m2 by simp
  show "\<not> need_ramp_up m'"
    using af(3) rf(5) m2 by simp
  show "UserSessionManager.user_id m'
           \<le> UserSessionManager.user_id m + num_users (workload_config m)"
    using af(4) na rf(1) m2 l1 by (simp split: if_splits)
  show "last_user_join m' = t"
    using af(4) na rf(3) m2 by (simp split: if_splits)
qed

lemma manager_event_admission:
  assumes "manager_event ev (m, ex) = Inr (m1, ex1)" and "\<not> need_ramp_up m"
  shows "gap_between_users m1 = gap_between_users m \<and> \<not> need_ramp_up m1
       \<and> ((\<exists>t rnd. ev = Tick t rnd \<and> t - last_user_join m > gap_between_users m
              \<and> UserSessionManager.user_id m1 = UserSessionManager.user_id m + 1
              \<and> last_user_join m1 = t)
          \<or> (UserSessionManager.user_id m1 = UserSessionManager.user_id m
              \<and> last_user_join m1 = last_user_join m))"
proof (cases ev)
  case (Tick t rnd)
  with assms(1) obtain ws where
    st: "UserSessionManager_step t rnd m ex = Inr (m1, ex1, ws)"
    by (auto simp add: bind_err_Inr)
  note f = manager_step_after [OF st assms(2)]
  show ?thesis
  proof (cases "num_users (workload_config m) > int (length (sessions m))
            \<and> t - last_user_join m > gap_between_users m")
    case True
    with f(4) have "UserSessionManager.user_id m1 = UserSessionManager.user_id m + 1"
      and "last_user_join m1 = t"
      by simp_all
    with True Tick f(1,3) show ?thesis by simp
  next
    case False
    with f(4) have "UserSessionManager.user_id m1 = UserSessionManager.user_id m"
      and "last_user_join m1 = last_user_join m"
      by (simp_all split: if_splits)
    with f(1,3) show ?thesis by simp
  qed
next
  case (Completes i cl clock)
  with assms show ?thesis
    by (auto simp add: Let_def split: if_splits)
qed

lemma admissions_spaced:
  "\<not> need_ramp_up m \<Longrightarrow> 0 < gap_between_users m \<Longrightarrow>
   manager_run evs (m, ex) = Inr (m', ex') \<Longrightarrow>
   \<forall>t \<in> set (tick_times evs). lo \<le> t \<and> t \<le> hi \<Longrightarrow>
   \<exists>k. UserSessionManager.user_id m' = UserSessionManager.user_id m + int k
      \<and> gap_between_users m' = gap_between_users m
      \<and> (k = 0 \<longrightarrow> last_user_join m' = last_user_join m)
      \<and> last_user_join m + real k * gap_between_users m \<le> last_user_join m'
      \<and> (0 < k \<longrightarrow> lo + real (k - 1) * gap_between_users m \<le> last_user_join m'
                    \<and> last_user_join m' \<le> hi)"
proof (induction evs arbitrary: m ex)
  case Nil
  then show ?case by (intro exI [of _ 0]) simp
next
  case (Cons ev evs)
  from Cons.prems(3) obtain m1 ex1 where
    ev: "manager_event ev (m, ex) = Inr (m1, ex1)"
    and rest: "manager_run evs (m1, ex1) = Inr (m', ex')"
    by (auto simp add: bind_err_Inr)
  from manager_event_admission [OF ev Cons.prems(1)]
  have g1: "gap_between_users m1 = gap_between_users m" and n1: "\<not> need_ramp_up m1"
    and alt: "(\<exists>t rnd. ev = Tick t rnd \<and> t - last_user_join m > gap_between_users m
              \<and> UserSessionManager.user_id m1 = UserSessionManager.user_id m + 1
              \<and> last_user_join m1 = t)
          \<or> (UserSessionManager.user_id m1 = UserSessionManager.user_id m
              \<and> last_user_join m1 = last_user_join m)"
    by simp_all
  have ticks: "\<forall>t \<in> set (tick_times evs). lo \<le> t \<and> t \<le> hi"
    using Cons.prems(4) by (cases ev) simp_all
  from Cons.IH [OF n1 _ rest ticks] g1 Cons.prems(2)
  obtain k where
    u: "UserSessionManager.user_id m' = UserSessionManager.user_id m1 + int k"
    and g: "gap_between_users m' = gap_between_users m"
    and z: "k = 0 \<longrightarrow> last_user_join m' = last_user_join m1"
    and lower: "last_user_join m1 + real k * gap_between_users m \<le> last_user_join m'"
    and win: "0 < k \<longrightarrow> lo + real (k - 1) * gap_between_users m \<le> last_user_join m'
                    \<and> last_user_join m' \<le> hi"
    by auto
  from alt show ?case
  proof
    assume "\<exists>t rnd. ev = Tick t rnd \<and> t - last_user_join m > gap_between_users m
              \<and> UserSessionManager.user_id m1 = UserSessionManager.user_id m + 1
              \<and> last_user_join m1 = t"
    then obtain t rnd where tick: "ev = Tick t rnd"
      and late: "t - last_user_join m > gap_between_users m"
      and u1: "UserSessionManager.user_id m1 = UserSessionManager.user_id m + 1"
      and j1: "last_user_join m1 = t"
      by blast
    from Cons.prems(4) tick have tb: "lo \<le> t" "t \<le> hi" by simp_all
    have a: "UserSessionManager.user_id m' = UserSessionManager.user_id m + int (Suc k)"
      using u u1 by simp
    have b: "last_user_join m + real (Suc k) * gap_between_users m \<le> last_user_join m'"
      using lower late j1 by (simp add: algebra_simps)
    have c: "lo + real (Suc k - 1) * gap_between_users m \<le> last_user_join m'"
      using lower tb(1) j1 by simp
    have d: "last_user_join m' \<le> hi"
    proof (cases "k = 0")
      case True
      with z j1 tb(2) show ?thesis by simp
    next
      case False
      with win show ?thesis by simp
    qed
    show ?thesis
      using a b c d g by (intro exI [of _ "Suc k"]) simp
  next
    assume same: "UserSessionManager.user_id m1 = UserSessionManager.user_id m
              \<and> last_user_join m1 = last_user_join m"
    show ?thesis
      using same u g z lower win by (intro exI [of _ k]) simp
  qed
qed

lemma init_fields:
  assumes "UserSessionManager_init fs sf wc uid0 sg = Inr m0"
  shows "need_ramp_up m0" and "UserSessionManager.user_id m0 = uid0"
    and "workload_config m0 = wc"
  using assms
  by (auto simp add: UserSessionManager_init_def load_sharegpt_data_def bind_err_Inr Let_def
        split: sum.splits if_splits)

lemma count_bound:
  fixes g T :: real
  assumes "0 < g" and "real k * g \<le> T"
  shows "int k \<le> \<lfloor>T / g\<rfloor>"
proof -
  from assms have "real k \<le> T / g"
    by (simp add: pos_le_divide_eq)
  then have "real_of_int (int k) \<le> T / g" by simp
  then show ?thesis by (simp only: le_floor_iff)
qed

text \<open>
  C7. The manager counts the sessions it creates in its user id. (1) After ramp-up a tick
  creates at most one session, and it creates one exactly when the workload asks for more
  users than there are sessions and more than the gap between users has passed since a
  session joined last; the time of that join is then the time of the tick. (2) From the
  construction of the manager on, with a first tick at \<open>t0\<close> and every later tick at
  most \<open>T\<close> seconds after it, the sessions ever created are at most
  \<open>\<lfloor>T / g\<rfloor>\<close> plus the number of users of the workload, which bounds the population
  of the ramp-up. (3) After ramp-up, over any ticks that all lie within \<open>T\<close> seconds,
  at most \<open>\<lfloor>T / g\<rfloor> + 1\<close> sessions are created.
\<close>

theorem admission_rate:
  "(\<not> need_ramp_up m \<and> UserSessionManager_step t rnd m ex = Inr (m', ex', ws) \<longrightarrow>
      (if num_users (workload_config m) > int (length (sessions m))
          \<and> t - last_user_join m > gap_between_users m
       then UserSessionManager.user_id m' = UserSessionManager.user_id m + 1
            \<and> last_user_join m' = t
       else UserSessionManager.user_id m' = UserSessionManager.user_id m
            \<and> last_user_join m' = last_user_join m)
      \<and> gap_between_users m' = gap_between_users m) \<and>
   (UserSessionManager_init fs sf wc uid0 sg = Inr m0 \<and> 0 < num_users wc
      \<and> 0 < gap_between_users m0 \<and> 0 \<le> T
      \<and> manager_run (Tick t0 rnd0 # evs) (m0, ex0) = Inr (m1, ex1)
      \<and> (\<forall>u \<in> set (tick_times evs). u \<le> t0 + T) \<longrightarrow>
      UserSessionManager.user_id m1 - uid0 \<le> \<lfloor>T / gap_between_users m0\<rfloor> + num_users wc) \<and>
   (\<not> need_ramp_up m \<and> 0 < gap_between_users m \<and> 0 \<le> T
      \<and> manager_run evs' (m, ex) = Inr (m2, ex2)
      \<and> (\<forall>u \<in> set (tick_times evs'). a \<le> u \<and> u \<le> a + T) \<longrightarrow>
      UserSessionManager.user_id m2 - UserSessionManager.user_id m
        \<le> \<lfloor>T / gap_between_users m\<rfloor> + 1)"
proof (intro conjI impI)
  assume h: "\<not> need_ramp_up m \<and> UserSessionManager_step t rnd m ex = Inr (m', ex', ws)"
  then have st: "UserSessionManager_step t rnd m ex = Inr (m', ex', ws)"
    and nr: "\<not> need_ramp_up m"
    by simp_all
  show "if num_users (workload_config m) > int (length (sessions m))
          \<and> t - last_user_join m > gap_between_users m
       then UserSessionManager.user_id m' = UserSessionManager.user_id m + 1
            \<and> last_user_join m' = t
       else UserSessionManager.user_id m' = UserSessionManager.user_id m
            \<and> last_user_join m' = last_user_join m"
    by (rule manager_step_after(4) [OF st nr])
  show "gap_between_users m' = gap_between_users m"
    by (rule manager_step_after(1) [OF st nr])
next
  assume h: "UserSessionManager_init fs sf wc uid0 sg = Inr m0 \<and> 0 < num_users wc
      \<and> 0 < gap_between_users m0 \<and> 0 \<le> T
      \<and> manager_run (Tick t0 rnd0 # evs) (m0, ex0) = Inr (m1, ex1)
      \<and> (\<forall>u \<in> set (tick_times evs). u \<le> t0 + T)"
  then have init: "UserSessionManager_init fs sf wc uid0 sg = Inr m0"
    and n: "0 < num_users wc" and g: "0 < gap_between_users m0" and T: "0 \<le> T"
    and run: "manager_run (Tick t0 rnd0 # evs) (m0, ex0) = Inr (m1, ex1)"
    and hi: "\<forall>u \<in> set (tick_times evs). u \<le> t0 + T"
    by simp_all
  note i = init_fields [OF init]
  from run obtain ma exa wsa where
    first: "UserSessionManager_step t0 rnd0 m0 ex0 = Inr (ma, exa, wsa)"
    and rest: "manager_run evs (ma, exa) = Inr (m1, ex1)"
    by (auto simp add: bind_err_Inr)
  from n i(3) have n': "0 < num_users (workload_config m0)" by simp
  note f = manager_first_step [OF first i(1) n' g]
  have lo: "\<forall>u \<in> set (tick_times evs). Min (set (tick_times evs)) \<le> u \<and> u \<le> t0 + T"
    using hi by simp
  from admissions_spaced [OF f(3) _ rest lo] f(1) g
  obtain k where
    u: "UserSessionManager.user_id m1 = UserSessionManager.user_id ma + int k"
    and z: "k = 0 \<longrightarrow> last_user_join m1 = last_user_join ma"
    and lower: "last_user_join ma + real k * gap_between_users m0 \<le> last_user_join m1"
    and win: "0 < k \<longrightarrow> last_user_join m1 \<le> t0 + T"
    by auto
  have "real k * gap_between_users m0 \<le> T"
  proof (cases "k = 0")
    case True
    with T show ?thesis by simp
  next
    case False
    with win lower f(5) show ?thesis by simp
  qed
  with g have "int k \<le> \<lfloor>T / gap_between_users m0\<rfloor>"
    by (rule count_bound)
  with u f(4) i(2,3) show "UserSessionManager.user_id m1 - uid0
                            \<le> \<lfloor>T / gap_between_users m0\<rfloor> + num_users wc"
    by simp
next
  assume h: "\<not> need_ramp_up m \<and> 0 < gap_between_users m \<and> 0 \<le> T
      \<and> manager_run evs' (m, ex) = Inr (m2, ex2)
      \<and> (\<forall>u \<in> set (tick_times evs'). a \<le> u \<and> u \<le> a + T)"
  then have nr: "\<not> need_ramp_up m" and g: "0 < gap_between_users m" and T: "0 \<le> T"
    and run: "manager_run evs' (m, ex) = Inr (m2, ex2)"
    and win: "\<forall>u \<in> set (tick_times evs'). a \<le> u \<and> u \<le> a + T"
    by simp_all
  from admissions_spaced [OF nr g run win]
  obtain k where
    u: "UserSessionManager.user_id m2 = UserSessionManager.user_id m + int k"
    and w: "0 < k \<longrightarrow> a + real (k - 1) * gap_between_users m \<le> last_user_join m2
                    \<and> last_user_join m2 \<le> a + T"
    by auto
  have "real (k - 1) * gap_between_users m \<le> T"
  proof (cases "k = 0")
    case True
    with T show ?thesis by simp
  next
    case False
    with w show ?thesis by simp
  qed
  with g have "int (k - 1) \<le> \<lfloor>T / gap_between_users m\<rfloor>"
    by (rule count_bound)
  then have "int k \<le> \<lfloor>T / gap_between_users m\<rfloor> + 1"
    by simp
  with u show "UserSessionManager.user_id m2 - UserSessionManager.user_id m
        \<le> \<lfloor>T / gap_between_users m\<rfloor> + 1"
    by simp
qed

theorem admission_rate_witness:
  "map_sum id (\<lambda>(m, ex). (UserSessionManager.user_id m, last_user_join m,
                            length (sessions m), length (loop ex)))
     (manager_run [Tick 50 (\<lambda>u. ''r'')] (example_manager, idle_executor)) =
     Inr (2, 50, 1, 0) \<and>
   map_sum id (\<lambda>(m, ex). (UserSessionManager.user_id m, last_user_join m,
                            length (sessions m), length (loop ex)))
     (manager_run [Tick 50 (\<lambda>u. ''r''), Tick 51 (\<lambda>u. ''r'')]
        (example_manager, idle_executor)) =
     Inr (2, 50, 1, 0) \<and>
   map_sum id (\<lambda>(m, ex). (UserSessionManager.user_id m, last_user_join m,
                            length (sessions m), length (loop ex)))
     (manager_run [Tick 50 (\<lambda>u. ''r''), Tick 51 (\<lambda>u. ''r''), Tick 52 (\<lambda>u. ''r'')]
        (example_manager, idle_executor)) =
     Inr (3, 52, 2, 2) \<and>
   UserSessionManager_init example_files (Inr []) example_workload 0 False = Inr example_manager \<and>
   (3::int) - 0 \<le> \<lfloor>2 / gap_between_users example_manager\<rfloor> + num_users example_workload"
  using admission_rate [where fs = example_files and sf = "Inr []" and wc = example_workload
          and ?uid0.0 = 0 and sg = False and ?m0.0 = example_manager and T = 2 and ?t0.0 = 50
          and ?rnd0.0 = "\<lambda>u. ''r''" and ?ex0.0 = idle_executor
          and evs = "[Tick 51 (\<lambda>u. ''r''), Tick 52 (\<lambda>u. ''r'')]"
          and ?m1.0 = "fst (projr (manager_run
                 [Tick 50 (\<lambda>u. ''r''), Tick 51 (\<lambda>u. ''r''), Tick 52 (\<lambda>u. ''r'')]
                 (example_manager, idle_executor)))"
          and ?ex1.0 = "snd (projr (manager_run
                 [Tick 50 (\<lambda>u. ''r''), Tick 51 (\<lambda>u. ''r''), Tick 52 (\<lambda>u. ''r'')]
                 (example_manager, idle_executor)))"
          and m = "fst (projr (manager_run [Tick 50 (\<lambda>u. ''r'')]
                 (example_manager, idle_executor)))"
          and ex = "snd (projr (manager_run [Tick 50 (\<lambda>u. ''r'')]
                 (example_manager, idle_executor)))"
          and t = 52 and rnd = "\<lambda>u. ''r''"
          and m' = "fst (projr (UserSessionManager_step 52 (\<lambda>u. ''r'')
                 (fst (projr (manager_run [Tick 50 (\<lambda>u. ''r'')]
                    (example_manager, idle_executor))))
                 (snd (projr (manager_run [Tick 50 (\<lambda>u. ''r'')]
                    (example_manager, idle_executor))))))"
          and ex' = "fst (snd (projr (UserSessionManager_step 52 (\<lambda>u. ''r'')
                 (fst (projr (manager_run [Tick 50 (\<lambda>u. ''r'')]
                    (example_manager, idle_executor))))
                 (snd (projr (manager_run [Tick 50 (\<lambda>u. ''r'')]
                    (example_manager, idle_executor)))))))"
          and ws = "snd (snd (projr (UserSessionManager_step 52 (\<lambda>u. ''r'')
                 (fst (projr (manager_run [Tick 50 (\<lambda>u. ''r'')]
                    (example_manager, idle_executor))))
                 (snd (projr (manager_run [Tick 50 (\<lambda>u. ''r'')]
                    (example_manager, idle_executor)))))))"
          and evs' = "[Tick 51 (\<lambda>u. ''r''), Tick 52 (\<lambda>u. ''r'')]" and a = 50
          and ?m2.0 = "fst (projr (manager_run
                 [Tick 50 (\<lambda>u. ''r''), Tick 51 (\<lambda>u. ''r''), Tick 52 (\<lambda>u. ''r'')]
                 (example_manager, idle_executor)))"
          and ?ex2.0 = "snd (projr (manager_run
                 [Tick 50 (\<lambda>u. ''r''), Tick 51 (\<lambda>u. ''r''), Tick 52 (\<lambda>u. ''r'')]
                 (example_manager, idle_executor)))"]
  by (simp add: UserSessionManager_step_def ramp_up_def admit_def admits_def
        remove_finished_sessions_def summary_def
        create_user_session_def new_user_config_def get_app_for_user_def
        assign_app_to_user_def py_index_def UserSession_init_def ChatHistory_init_def
        set_internal_state_def py_int_def py_truediv_def
        UserSessionManager_init_def AppsManager_init_def load_apps_def App_of_def
        example_files_def example_workload_def example_manager_def idle_executor_def
        step_def launch_new_request_def next_prompt_def build_new_question_def
        get_all_rag_docs_def build_system_prompt_def on_user_query_def round_max_tokens_def
        launch_request_def get_messages_for_openai_def Let_def upt_conv_Cons)

end
